theory Spec2Isabelle
  imports Main "HOL-Library.Sublist" "HOL-Library.AList"
begin

section \<open>Data model\<close>

text \<open>
  Python strings are modelled as \<^typ>\<open>string\<close>, the UTF-8 bytes of the text.  Python
  dictionaries are association lists in insertion order whose keys are distinct:
  \<^term>\<open>map_of d k\<close> is the lookup \<^verbatim>\<open>d[k]\<close>, \<^term>\<open>map_of d k \<noteq> None\<close> is
  \<^verbatim>\<open>k in d\<close>, the list itself is \<^verbatim>\<open>d.items()\<close>, and \<^term>\<open>AList.update k v d\<close> is
  the assignment \<^verbatim>\<open>d[k] = v\<close> (an existing key keeps its position, a new key goes
  to the end).
\<close>

subsection \<open>The service table\<close>

definition COMMON_SERVICES :: "(int \<times> string) list" where
  "COMMON_SERVICES = [
    (7, ''echo''), (20, ''ftp-data''), (21, ''ftp''), (22, ''ssh''), (23, ''telnet''),
    (25, ''smtp''), (43, ''whois''), (53, ''dns''), (67, ''dhcp''), (68, ''dhcp''),
    (69, ''tftp''), (80, ''http''), (110, ''pop3''), (115, ''sftp''), (119, ''nntp''),
    (123, ''ntp''), (137, ''netbios-ns''), (138, ''netbios-dgm''), (139, ''netbios-ssn''),
    (143, ''imap''), (161, ''snmp''), (179, ''bgp''), (194, ''irc''), (389, ''ldap''),
    (443, ''https''), (445, ''smb''), (514, ''syslog''), (515, ''printer''), (587, ''smtps''),
    (631, ''ipp''), (636, ''ldaps''), (993, ''imaps''), (995, ''pop3s''), (1080, ''socks''),
    (1194, ''openvpn''), (1433, ''mssql''), (1723, ''pptp''), (1900, ''upnp''),
    (2082, ''cpanel''), (2083, ''cpanel-ssl''), (2086, ''whm''), (2087, ''whm-ssl''),
    (2095, ''webmail''), (2096, ''webmail-ssl''), (2181, ''zookeeper''), (2375, ''docker''),
    (2376, ''docker-ssl''), (2483, ''oracle''), (2484, ''oracle-ssl''), (3000, ''nodejs''),
    (3306, ''mysql''), (3389, ''rdp''), (5432, ''postgresql''), (5500, ''vnc''),
    (5601, ''kibana''), (5672, ''amqp''), (5900, ''vnc''), (5938, ''teamviewer''),
    (6379, ''redis''), (6443, ''kubernetes''), (6666, ''irc''), (6667, ''irc''),
    (8000, ''http-alt''), (8008, ''http-alt''), (8080, ''http-proxy''), (8081, ''http-alt''),
    (8443, ''https-alt''), (8888, ''http-alt''), (9000, ''php-fpm''), (9042, ''cassandra''),
    (9092, ''kafka''), (9200, ''elasticsearch''), (9300, ''elasticsearch''),
    (11211, ''memcached''), (27017, ''mongodb''), (27018, ''mongodb''), (27019, ''mongodb''),
    (28017, ''mongodb''), (50000, ''db2'')]"

subsection \<open>Strings\<close>

text \<open>
  \<^verbatim>\<open>str.lower()\<close> on the ASCII letters.  A code point outside ASCII is a sequence of
  bytes above 127 in UTF-8 and its lower-case form never contains one of the letters
  of the keywords below, so leaving those bytes alone does not change any keyword test.
\<close>

definition ascii_uppercase :: string where
  "ascii_uppercase = ''ABCDEFGHIJKLMNOPQRSTUVWXYZ''"

definition ascii_lowercase :: string where
  "ascii_lowercase = ''abcdefghijklmnopqrstuvwxyz''"

definition lower_char :: "char \<Rightarrow> char" where
  "lower_char c =
     (case map_of (zip ascii_uppercase ascii_lowercase) c of Some l \<Rightarrow> l | None \<Rightarrow> c)"

definition lower :: "string \<Rightarrow> string" where
  "lower s = map lower_char s"

text \<open>
  \<^verbatim>\<open>needle in haystack\<close> on strings is \<^term>\<open>sublist needle haystack\<close>: the needle
  occurs as a contiguous block.
\<close>

section \<open>Classifier\<close>

definition get_service_name :: "int \<Rightarrow> string \<Rightarrow> string" where
  "get_service_name port banner =
    (let service =
       (case map_of COMMON_SERVICES port of Some name \<Rightarrow> name | None \<Rightarrow> ''unknown'')
     in
     if banner \<noteq> [] then
       (let banner_lower = lower banner in
        if sublist ''ssh'' banner_lower then ''ssh''
        else if sublist ''http'' banner_lower then
          (if port \<noteq> 443 then ''http'' else ''https'')
        else if sublist ''smtp'' banner_lower then ''smtp''
        else if sublist ''ftp'' banner_lower then ''ftp''
        else if sublist ''mysql'' banner_lower then ''mysql''
        else service)
     else service)"

text \<open>
  The refinement pass as the specification words it: an ordered list of keyword rules,
  each with the label it gives for a port; the first rule whose keyword occurs in the
  lower-cased banner decides.
\<close>

definition keyword_rules :: "(string \<times> (int \<Rightarrow> string)) list" where
  "keyword_rules =
    [(''ssh'', \<lambda>port. ''ssh''),
     (''http'', \<lambda>port. if port = 443 then ''https'' else ''http''),
     (''smtp'', \<lambda>port. ''smtp''),
     (''ftp'', \<lambda>port. ''ftp''),
     (''mysql'', \<lambda>port. ''mysql'')]"

definition base_label :: "int \<Rightarrow> string" where
  "base_label port =
     (case map_of COMMON_SERVICES port of Some name \<Rightarrow> name | None \<Rightarrow> ''unknown'')"

definition classify_by_rules :: "int \<Rightarrow> string \<Rightarrow> string" where
  "classify_by_rules port banner =
    (if banner = [] then base_label port
     else (case find (\<lambda>rule. sublist (fst rule) (lower banner)) keyword_rules of
             None \<Rightarrow> base_label port
           | Some rule \<Rightarrow> snd rule port))"

section \<open>Snapshots\<close>

text \<open>
  One entry of a scan result: the dictionary with the keys \<open>service\<close>, \<open>banner\<close> and
  \<open>timestamp\<close>.  A scan result (snapshot) is the dictionary from port to entry.
\<close>

record port_info =
  service :: string
  banner :: string
  timestamp :: string

type_synonym snapshot = "(int \<times> port_info) list"

subsection \<open>Rendering numbers\<close>

definition digit_chars :: string where
  "digit_chars = ''0123456789''"

fun str_nat :: "nat \<Rightarrow> string" where
  "str_nat n =
     (if n < 10 then [digit_chars ! n]
      else str_nat (n div 10) @ [digit_chars ! (n mod 10)])"

declare str_nat.simps [simp del]

definition str_int :: "int \<Rightarrow> string" where
  "str_int i = (if i < 0 then ''-'' @ str_nat (nat (- i)) else str_nat (nat i))"

subsection \<open>The outside world\<close>

text \<open>
  A reading of \<^verbatim>\<open>datetime.now()\<close>, given by the two renderings the program takes of it:
  \<^verbatim>\<open>isoformat()\<close> and \<^verbatim>\<open>strftime("%Y-%m-%d %H:%M:%S")\<close>.
\<close>

datatype datetime = Datetime (isoformat: string) (strftime: string)

text \<open>
  \<^verbatim>\<open>repr\<close> of a string: apostrophes around the text, or double quotes when the
  text holds an apostrophe and no double quote; the quote in use and the backslash are
  escaped with a backslash, tab, newline and carriage return are written with their
  letters, and the other control characters below 32 and 127 as a two-digit hexadecimal
  escape.  A code point outside ASCII (bytes above 127) is copied, as Python does for
  the printable ones.
\<close>

definition hex_chars :: string where
  "hex_chars = ''0123456789abcdef''"

definition repr_char :: "char \<Rightarrow> char \<Rightarrow> string" where
  "repr_char quote c =
    (let n = (of_char c :: nat) in
     if c = quote \<or> c = CHR 0x5C then [CHR 0x5C, c]
     else if c = CHR 0x09 then [CHR 0x5C, CHR ''t'']
     else if c = CHR 0x0A then [CHR 0x5C, CHR ''n'']
     else if c = CHR 0x0D then [CHR 0x5C, CHR ''r'']
     else if n < 32 \<or> n = 127 then
       [CHR 0x5C, CHR ''x'', hex_chars ! (n div 16), hex_chars ! (n mod 16)]
     else [c])"

definition repr_str :: "string \<Rightarrow> string" where
  "repr_str k =
    (let quote = (if CHR 0x27 \<in> set k \<and> CHR 0x22 \<notin> set k then CHR 0x22 else CHR 0x27)
     in [quote] @ concat (map (repr_char quote) k) @ [quote])"

text \<open>
  Exceptions, with the text that \<^verbatim>\<open>str(e)\<close> gives in a log line; for a
  \<^verbatim>\<open>KeyError\<close> that is the \<^verbatim>\<open>repr\<close> of the missing key.
\<close>

datatype exn = ValueError string | KeyError string | OSError string

fun str_exn :: "exn \<Rightarrow> string" where
  "str_exn (ValueError msg) = msg"
| "str_exn (KeyError k) = repr_str k"
| "str_exn (OSError msg) = msg"

text \<open>The result of a call into a library or the operating system.\<close>

datatype 'a outcome = Raised exn | Returned 'a

text \<open>
  What the network does to one probe: \<open>connect_ex\<close> is the outcome of creating the
  socket, setting its timeout and calling \<^verbatim>\<open>connect_ex\<close> (an exception, or the error
  code returned, 0 for an established connection); \<open>recv\<close> is the outcome of sending
  the request line and of \<^verbatim>\<open>recv(1024).decode('utf-8', errors='ignore').strip()\<close>,
  consulted only once the connection is established.
\<close>

record probe_world =
  connect_ex :: "int outcome"
  recv :: "string outcome"

section \<open>Probe\<close>

text \<open>The body of the outer \<^verbatim>\<open>try\<close> of \<^verbatim>\<open>scan_port\<close>; the inner \<^verbatim>\<open>try\<close> swallows
  every exception of \<^verbatim>\<open>send\<close> and \<^verbatim>\<open>recv\<close>.\<close>

definition scan_port_try :: "probe_world \<Rightarrow> exn + bool \<times> string" where
  "scan_port_try w =
    (case connect_ex w of
       Raised e \<Rightarrow> Inl e
     | Returned result \<Rightarrow>
         if result = 0 then
           (case recv w of
              Returned text \<Rightarrow> if text \<noteq> [] then Inr (True, text) else Inr (True, [])
            | Raised e \<Rightarrow> Inr (True, []))
         else Inr (False, []))"

definition scan_port :: "probe_world \<Rightarrow> exn + bool \<times> string" where
  "scan_port w =
    (case scan_port_try w of
       Inr r \<Rightarrow> Inr r
     | Inl e \<Rightarrow> Inr (False, []))"

section \<open>Differ\<close>

text \<open>
  A change event is a dictionary whose \<open>type\<close> key selects its other keys:
  \<open>port_opened\<close> and \<open>port_closed\<close> carry port, service, timestamp and message;
  \<open>service_change\<close> carries port, old service, new service, timestamp and message.
\<close>

datatype change =
    Port_opened int string string string
  | Port_closed int string string string
  | Service_change int string string string string

fun change_type :: "change \<Rightarrow> string" where
  "change_type (Port_opened p sv ts msg) = ''port_opened''"
| "change_type (Port_closed p sv ts msg) = ''port_closed''"
| "change_type (Service_change p old_sv new_sv ts msg) = ''service_change''"

fun change_port :: "change \<Rightarrow> int" where
  "change_port (Port_opened p sv ts msg) = p"
| "change_port (Port_closed p sv ts msg) = p"
| "change_port (Service_change p old_sv new_sv ts msg) = p"

fun change_message :: "change \<Rightarrow> string" where
  "change_message (Port_opened p sv ts msg) = msg"
| "change_message (Port_closed p sv ts msg) = msg"
| "change_message (Service_change p old_sv new_sv ts msg) = msg"

fun change_services :: "change \<Rightarrow> string list" where
  "change_services (Port_opened p sv ts msg) = [sv]"
| "change_services (Port_closed p sv ts msg) = [sv]"
| "change_services (Service_change p old_sv new_sv ts msg) = [old_sv, new_sv]"

text \<open>A change without its timestamp and message: type, port and service labels.\<close>

definition event_of :: "change \<Rightarrow> string \<times> int \<times> string list" where
  "event_of c = (change_type c, change_port c, change_services c)"

text \<open>The UTF-8 bytes of the symbols that open the messages.\<close>

definition siren :: string where
  "siren = [CHR 0xF0, CHR 0x9F, CHR 0x9A, CHR 0xA8]"

definition cycle_arrows :: string where
  "cycle_arrows = [CHR 0xF0, CHR 0x9F, CHR 0x94, CHR 0x84]"

definition right_arrow :: string where
  "right_arrow = [CHR 0xE2, CHR 0x86, CHR 0x92]"

text \<open>
  The three loops of \<^verbatim>\<open>detect_changes\<close>, each appending to the list \<open>found\<close> built so
  far.  The clock \<open>clk\<close> gives the successive readings of \<^verbatim>\<open>datetime.now()\<close> during the
  call: the event appended to a list of \<open>k\<close> events takes reading \<open>k\<close>.
\<close>

fun opened_loop ::
  "(nat \<Rightarrow> datetime) \<Rightarrow> string \<Rightarrow> snapshot \<Rightarrow> (int \<times> port_info) list \<Rightarrow> change list
    \<Rightarrow> change list" where
  "opened_loop clk ip old_scan [] found = found"
| "opened_loop clk ip old_scan ((port, info) # items) found =
     opened_loop clk ip old_scan items
       (if map_of old_scan port = None then
          found @ [Port_opened port (service info) (isoformat (clk (length found)))
            (siren @ '' NEW PORT OPENED on '' @ ip @ '':'' @ str_int port
               @ '' ('' @ service info @ '')'')]
        else found)"

fun closed_loop ::
  "(nat \<Rightarrow> datetime) \<Rightarrow> string \<Rightarrow> snapshot \<Rightarrow> (int \<times> port_info) list \<Rightarrow> change list
    \<Rightarrow> change list" where
  "closed_loop clk ip new_scan [] found = found"
| "closed_loop clk ip new_scan ((port, info) # items) found =
     closed_loop clk ip new_scan items
       (if map_of new_scan port = None then
          found @ [Port_closed port (service info) (isoformat (clk (length found)))
            (siren @ '' PORT CLOSED on '' @ ip @ '':'' @ str_int port
               @ '' ('' @ service info @ '')'')]
        else found)"

fun service_loop ::
  "(nat \<Rightarrow> datetime) \<Rightarrow> string \<Rightarrow> snapshot \<Rightarrow> (int \<times> port_info) list \<Rightarrow> change list
    \<Rightarrow> change list" where
  "service_loop clk ip old_scan [] found = found"
| "service_loop clk ip old_scan ((port, new_info) # items) found =
     service_loop clk ip old_scan items
       (case map_of old_scan port of
          None \<Rightarrow> found
        | Some old_info \<Rightarrow>
            if service new_info \<noteq> service old_info then
              found @ [Service_change port (service old_info) (service new_info)
                (isoformat (clk (length found)))
                (cycle_arrows @ '' SERVICE CHANGE on '' @ ip @ '':'' @ str_int port
                   @ '' ('' @ service old_info @ '' '' @ right_arrow @ '' ''
                   @ service new_info @ '')'')]
            else found)"

definition detect_changes ::
  "(nat \<Rightarrow> datetime) \<Rightarrow> snapshot \<Rightarrow> snapshot \<Rightarrow> string \<Rightarrow> change list" where
  "detect_changes clk old_scan new_scan ip =
     service_loop clk ip old_scan new_scan
       (closed_loop clk ip new_scan old_scan
         (opened_loop clk ip old_scan new_scan []))"

section \<open>Monitor state\<close>

text \<open>
  The configuration dictionary (the nested \<open>telegram\<close> dictionary flattened), the record
  kept for a monitored address, and the fields of the tool object.  The field \<open>ticks\<close>
  is not in the source: it counts the calls made so far into the outside world (clock,
  network, file system), and the environment answers the call made at a given tick.
\<close>

record tool_config =
  scan_interval :: int
  timeout :: int
  max_workers :: int
  telegram_token :: string
  telegram_chat_id :: string
  telegram_enabled :: bool

record target =
  last_scan :: snapshot
  changes :: "change list"
  start_time :: string

record tool =
  config :: tool_config
  monitored_ips :: "(string \<times> target) list"
  scanning_active :: bool
  history :: "string list"
  ticks :: nat

text \<open>
  The environment: \<open>now\<close> is the reading of the wall clock, \<open>ping_call\<close> the outcome
  of the \<^verbatim>\<open>ping\<close> subprocess for an address, \<open>sockets\<close> what the network does to the
  probe of an address and port, \<open>completion\<close> the time at which the future submitted at
  a tick finishes, \<open>json_dump\<close> the outcome of writing the configuration file, and
  \<open>requests_post\<close> the outcome of posting a message (the status code of the response).
\<close>

record env =
  now :: "nat \<Rightarrow> datetime"
  ping_call :: "nat \<Rightarrow> string \<Rightarrow> int outcome"
  sockets :: "nat \<Rightarrow> string \<Rightarrow> int \<Rightarrow> probe_world"
  completion :: "nat \<Rightarrow> nat"
  json_dump :: "nat \<Rightarrow> unit outcome"
  requests_post :: "nat \<Rightarrow> string \<Rightarrow> int outcome"

text \<open>
  \<^verbatim>\<open>log\<close> prints the line and appends it to \<open>history\<close>, a deque that holds at most
  1000 lines and drops its oldest line when full.  Printing is not modelled.
\<close>

definition log :: "env \<Rightarrow> string \<Rightarrow> string \<Rightarrow> tool \<Rightarrow> tool" where
  "log env message level s =
    (let stamp = strftime (now env (ticks s));
         log_message = ''['' @ stamp @ ''] ['' @ level @ ''] '' @ message;
         h = history s @ [log_message]
     in s\<lparr>history := (if length h > 1000 then tl h else h), ticks := Suc (ticks s)\<rparr>)"

definition ping_ip :: "env \<Rightarrow> string \<Rightarrow> tool \<Rightarrow> bool \<times> tool" where
  "ping_ip env ip s =
    ((case ping_call env (ticks s) ip of Returned rc \<Rightarrow> rc = 0 | Raised e \<Rightarrow> False),
     s\<lparr>ticks := Suc (ticks s)\<rparr>)"

definition save_config :: "env \<Rightarrow> tool \<Rightarrow> tool" where
  "save_config env s =
    (case json_dump env (ticks s) of
       Returned u \<Rightarrow> s\<lparr>ticks := Suc (ticks s)\<rparr>
     | Raised e \<Rightarrow>
         log env (''Error saving config: '' @ str_exn e) ''INFO'' (s\<lparr>ticks := Suc (ticks s)\<rparr>))"

definition send_telegram_message :: "env \<Rightarrow> string \<Rightarrow> tool \<Rightarrow> bool \<times> tool" where
  "send_telegram_message env message s =
    (let token = telegram_token (config s); chat_id = telegram_chat_id (config s) in
     if token = [] \<or> chat_id = [] then (False, s)
     else
       (case requests_post env (ticks s) message of
          Returned status_code \<Rightarrow> (status_code = 200, s\<lparr>ticks := Suc (ticks s)\<rparr>)
        | Raised e \<Rightarrow>
            (False, log env (''Telegram API error: '' @ str_exn e) ''ERROR''
                      (s\<lparr>ticks := Suc (ticks s)\<rparr>))))"

section \<open>Scanner\<close>

text \<open>
  \<^verbatim>\<open>future_to_port\<close>: one future per entry of the port list, in submission order.  A
  future is modelled by its submission index, its port and the result that
  \<^verbatim>\<open>future.result()\<close> gives; the probe submitted as number \<open>i\<close> of a scan that starts at
  tick \<open>t\<close> gets the network's answer for tick \<open>t + i\<close>.
\<close>

type_synonym future = "nat \<times> int \<times> (exn + bool \<times> string)"

definition future_to_port :: "env \<Rightarrow> nat \<Rightarrow> string \<Rightarrow> int list \<Rightarrow> future list" where
  "future_to_port env t ip ports =
     map (\<lambda>(i, port). (i, port, scan_port (sockets env (t + i) ip port))) (enumerate 0 ports)"

text \<open>\<^verbatim>\<open>as_completed\<close> yields the futures in the order in which they finish.\<close>

definition as_completed :: "env \<Rightarrow> nat \<Rightarrow> future list \<Rightarrow> future list" where
  "as_completed env t futures = sort_key (\<lambda>(i, port, r). completion env (t + i)) futures"

text \<open>A future whose probe found its port open.\<close>

fun future_open :: "future \<Rightarrow> bool" where
  "future_open (i, port, Inr (is_open, text)) = is_open"
| "future_open (i, port, Inl e) = False"

text \<open>The loop over the completed futures, on the dictionary \<open>open_ports\<close> and the tool.\<close>

fun collect :: "env \<Rightarrow> string \<Rightarrow> future list \<Rightarrow> snapshot \<times> tool \<Rightarrow> snapshot \<times> tool" where
  "collect env ip [] (open_ports, s) = (open_ports, s)"
| "collect env ip ((i, port, r) # futures) (open_ports, s) =
     collect env ip futures
       (case r of
          Inr (is_open, text) \<Rightarrow>
            if is_open then
              (AList.update port
                 \<lparr>service = get_service_name port text, banner = text,
                  timestamp = isoformat (now env (ticks s))\<rparr> open_ports,
               s\<lparr>ticks := Suc (ticks s)\<rparr>)
            else (open_ports, s)
        | Inl e \<Rightarrow>
            (open_ports,
             log env (''Error scanning port '' @ str_int port @ '' on '' @ ip @ '': ''
                        @ str_exn e) ''ERROR'' s))"

text \<open>
  The port list that \<^verbatim>\<open>scan_ports\<close> works on: the list given, or the keys of the
  service table followed by \<^verbatim>\<open>range(1, 1001)\<close>.
\<close>

definition ports_to_scan :: "int list option \<Rightarrow> int list" where
  "ports_to_scan ports =
    (case ports of None \<Rightarrow> map fst COMMON_SERVICES @ [1..1000] | Some given \<Rightarrow> given)"

text \<open>
  \<^verbatim>\<open>scan_ports\<close>.  Creating the thread pool raises \<^verbatim>\<open>ValueError\<close> when \<open>max_workers\<close>
  is not positive; nothing in \<^verbatim>\<open>scan_ports\<close> catches it.
\<close>

definition scan_ports ::
  "env \<Rightarrow> string \<Rightarrow> int list option \<Rightarrow> tool \<Rightarrow> (exn + snapshot) \<times> tool" where
  "scan_ports env ip ports s =
    (let ports' = ports_to_scan ports in
     if max_workers (config s) \<le> 0 then
       (Inl (ValueError ''max_workers must be greater than 0''), s)
     else
       (let futures = future_to_port env (ticks s) ip ports';
            (open_ports, s') =
               collect env ip (as_completed env (ticks s) futures)
                 ([], s\<lparr>ticks := ticks s + length ports'\<rparr>)
        in (Inr open_ports, s')))"

section \<open>Monitor\<close>

definition bar_chart :: string where
  "bar_chart = [CHR 0xF0, CHR 0x9F, CHR 0x93, CHR 0x8A]"

text \<open>
  \<^verbatim>\<open>start_monitoring\<close>.  An exception of the initial scan is not caught here and
  reaches the caller, after the record of the address has been created.
\<close>

definition start_monitoring :: "env \<Rightarrow> string \<Rightarrow> tool \<Rightarrow> (exn + unit) \<times> tool" where
  "start_monitoring env ip s =
    (if map_of (monitored_ips s) ip \<noteq> None then
       (Inr (), log env (''Already monitoring '' @ ip) ''INFO'' s)
     else
       (let (reachable, s1) = ping_ip env ip s;
            s2 = (if \<not> reachable then
                    log env (''IP '' @ ip @ '' is not reachable'') ''WARNING'' s1
                  else s1);
            s3 = s2\<lparr>monitored_ips :=
                      AList.update ip
                        \<lparr>last_scan = [], changes = [],
                         start_time = isoformat (now env (ticks s2))\<rparr>
                        (monitored_ips s2),
                    ticks := Suc (ticks s2)\<rparr>;
            s4 = log env (''Starting initial scan for '' @ ip) ''INFO'' s3
        in case scan_ports env ip None s4 of
             (Inl e, s5) \<Rightarrow> (Inl e, s5)
           | (Inr open_ports, s5) \<Rightarrow>
               (let s6 = s5\<lparr>monitored_ips :=
                              AList.map_entry ip (\<lambda>tg. tg\<lparr>last_scan := open_ports\<rparr>)
                                (monitored_ips s5)\<rparr>;
                    s7 = log env (''Found '' @ str_nat (length open_ports)
                                    @ '' open ports on '' @ ip) ''INFO'' s6;
                    s8 = save_config env s7;
                    s9 = (if telegram_enabled (config s8) \<and> telegram_chat_id (config s8) \<noteq> []
                          then snd (send_telegram_message env
                                 (siren @ '' Started monitoring '' @ ip @ [CHR 0x0A]
                                    @ bar_chart @ '' Initial scan found ''
                                    @ str_nat (length open_ports) @ '' open ports'') s8)
                          else s8)
                in (Inr (), s9))))"

text \<open>The loop that logs and sends each change of a non-empty list of changes.\<close>

fun notify_changes :: "env \<Rightarrow> change list \<Rightarrow> tool \<Rightarrow> tool" where
  "notify_changes env [] s = s"
| "notify_changes env (c # cs) s =
     (let s1 = log env (change_message c) ''INFO'' s;
          s2 = (if telegram_enabled (config s1) \<and> telegram_chat_id (config s1) \<noteq> []
                then snd (send_telegram_message env (change_message c) s1)
                else s1)
      in notify_changes env cs s2)"

text \<open>
  The body of the \<^verbatim>\<open>for\<close> loop of \<^verbatim>\<open>monitoring_loop\<close> for one address, with its
  \<^verbatim>\<open>try\<close>: an exception of the scan, or the missing key of an address that is no
  longer monitored, is logged and the loop goes on.
\<close>

definition monitor_target :: "env \<Rightarrow> string \<Rightarrow> tool \<Rightarrow> tool" where
  "monitor_target env ip s =
    (let s1 = log env (''Scanning '' @ ip) ''INFO'' s in
     case scan_ports env ip None s1 of
       (Inl e, s2) \<Rightarrow> log env (''Error monitoring '' @ ip @ '': '' @ str_exn e) ''ERROR'' s2
     | (Inr current_scan, s2) \<Rightarrow>
         (case map_of (monitored_ips s2) ip of
            None \<Rightarrow>
              log env (''Error monitoring '' @ ip @ '': '' @ str_exn (KeyError ip)) ''ERROR'' s2
          | Some tg \<Rightarrow>
              (let previous_scan = last_scan tg;
                   found = detect_changes (\<lambda>k. now env (ticks s2 + k))
                             previous_scan current_scan ip;
                   s3 = s2\<lparr>ticks := ticks s2 + length found\<rparr>
               in if found \<noteq> [] then
                    notify_changes env found
                      (s3\<lparr>monitored_ips :=
                            AList.map_entry ip
                              (\<lambda>tg. tg\<lparr>changes := changes tg @ found,
                                        last_scan := current_scan\<rparr>)
                              (monitored_ips s3)\<rparr>)
                  else log env (''No changes detected for '' @ ip) ''INFO'' s3)))"

text \<open>
  One pass of the \<^verbatim>\<open>while\<close> loop: the addresses are listed when the pass starts and
  handled in that order.  The pass ends with \<^verbatim>\<open>time.sleep\<close>, which changes nothing.
\<close>

definition monitoring_cycle :: "env \<Rightarrow> tool \<Rightarrow> tool" where
  "monitoring_cycle env s =
     foldl (\<lambda>s' ip. monitor_target env ip s') s (map fst (monitored_ips s))"

text \<open>
  Names for what one pass computes on the way: the state after the pass has handled a
  list of addresses, the scan that the loop body runs for an address from a state, and
  the changes that the body then detects against the record \<open>tg\<close> of the address.
\<close>

definition cycle_prefix :: "env \<Rightarrow> tool \<Rightarrow> string list \<Rightarrow> tool" where
  "cycle_prefix env s ips = foldl (\<lambda>s' ip. monitor_target env ip s') s ips"

definition target_scan :: "env \<Rightarrow> string \<Rightarrow> tool \<Rightarrow> (exn + snapshot) \<times> tool" where
  "target_scan env ip s = scan_ports env ip None (log env (''Scanning '' @ ip) ''INFO'' s)"

definition target_diff :: "env \<Rightarrow> string \<Rightarrow> tool \<Rightarrow> target \<Rightarrow> snapshot \<Rightarrow> change list" where
  "target_diff env ip s tg current_scan =
     detect_changes (\<lambda>k. now env (ticks (snd (target_scan env ip s)) + k))
       (last_scan tg) current_scan ip"

text \<open>
  \<^verbatim>\<open>monitoring_loop\<close> repeats the pass while \<open>scanning_active\<close> is set.  Only another
  thread clears the flag, so on its own the loop does not end when it starts with the
  flag set.
\<close>

partial_function (option) monitoring_loop :: "env \<Rightarrow> tool \<Rightarrow> tool option" where
  "monitoring_loop env s =
     (if scanning_active s then monitoring_loop env (monitoring_cycle env s) else Some s)"

section \<open>Sample data\<close>

definition sample_clock :: "nat \<Rightarrow> datetime" where
  "sample_clock k = Datetime ''2025-03-01T12:00:00.000000'' ''2025-03-01 12:00:00''"

definition snapshot_a :: snapshot where
  "snapshot_a =
    [(22, \<lparr>service = ''ftp'', banner = ''220 ProFTPD Server'',
           timestamp = ''2025-03-01T11:00:00.000000''\<rparr>),
     (80, \<lparr>service = ''http'', banner = ''HTTP/1.1 200 OK'',
           timestamp = ''2025-03-01T11:00:00.000000''\<rparr>),
     (8080, \<lparr>service = ''http-proxy'', banner = [],
             timestamp = ''2025-03-01T11:00:00.000000''\<rparr>)]"

definition snapshot_b :: snapshot where
  "snapshot_b =
    [(443, \<lparr>service = ''https'', banner = [],
            timestamp = ''2025-03-01T11:05:00.000000''\<rparr>),
     (80, \<lparr>service = ''http'', banner = ''HTTP/1.1 404 Not Found'',
           timestamp = ''2025-03-01T11:05:00.000000''\<rparr>),
     (22, \<lparr>service = ''ssh'', banner = ''SSH-2.0-OpenSSH_8.9'',
           timestamp = ''2025-03-01T11:05:00.000000''\<rparr>)]"

text \<open>
  A network on which port 80 answers with a banner, the probe of port 22 raises when
  its socket is created, and every other port refuses the connection.
\<close>

definition sample_sockets :: "nat \<Rightarrow> string \<Rightarrow> int \<Rightarrow> probe_world" where
  "sample_sockets t ip port =
    (if port = 80 then
       \<lparr>connect_ex = Returned 0, recv = Returned ''HTTP/1.1 404 Not Found''\<rparr>
     else if port = 22 then
       \<lparr>connect_ex = Raised (OSError ''[Errno 24] Too many open files''),
        recv = Returned []\<rparr>
     else \<lparr>connect_ex = Returned 111, recv = Returned []\<rparr>)"

definition sample_completion :: "nat \<Rightarrow> nat" where
  "sample_completion t = 0"

definition sample_ping :: "nat \<Rightarrow> string \<Rightarrow> int outcome" where
  "sample_ping t ip = Returned 0"

definition sample_dump :: "nat \<Rightarrow> unit outcome" where
  "sample_dump t = Returned ()"

definition sample_post :: "nat \<Rightarrow> string \<Rightarrow> int outcome" where
  "sample_post t message = Returned 200"

definition sample_env :: env where
  "sample_env =
    \<lparr>now = sample_clock, ping_call = sample_ping, sockets = sample_sockets,
     completion = sample_completion, json_dump = sample_dump,
     requests_post = sample_post\<rparr>"

definition snapshot_c :: snapshot where
  "snapshot_c =
    [(80, \<lparr>service = ''http'', banner = ''HTTP/1.1 200 OK'',
           timestamp = ''2025-03-01T11:00:00.000000''\<rparr>)]"

definition snapshot_d :: snapshot where
  "snapshot_d =
    [(80, \<lparr>service = ''http'', banner = ''HTTP/1.1 404 Not Found'',
           timestamp = ''2025-03-01T12:00:00.000000''\<rparr>)]"

definition sample_config :: tool_config where
  "sample_config =
    \<lparr>scan_interval = 300, timeout = 2, max_workers = 50, telegram_token = [],
     telegram_chat_id = [], telegram_enabled = False\<rparr>"

definition sample_target :: target where
  "sample_target =
    \<lparr>last_scan = snapshot_c, changes = [], start_time = ''2025-03-01T11:00:00.000000''\<rparr>"

definition sample_tool :: tool where
  "sample_tool =
    \<lparr>config = sample_config, monitored_ips = [(''192.168.1.10'', sample_target)],
     scanning_active = True, history = [], ticks = 0\<rparr>"

text \<open>
  Two networks on which only port 22 answers, and only to one probe of a scan that
  starts at tick 0: the probe submitted as number 3, or the probe submitted as number
  100.
\<close>

definition first_probe_sockets :: "nat \<Rightarrow> string \<Rightarrow> int \<Rightarrow> probe_world" where
  "first_probe_sockets t ip port =
    (if port = 22 \<and> t = 3 then
       \<lparr>connect_ex = Returned 0, recv = Returned ''SSH-2.0-OpenSSH_8.9''\<rparr>
     else \<lparr>connect_ex = Returned 111, recv = Returned []\<rparr>)"

definition second_probe_sockets :: "nat \<Rightarrow> string \<Rightarrow> int \<Rightarrow> probe_world" where
  "second_probe_sockets t ip port =
    (if port = 22 \<and> t = 100 then
       \<lparr>connect_ex = Returned 0, recv = Returned ''SSH-2.0-OpenSSH_8.9''\<rparr>
     else \<lparr>connect_ex = Returned 111, recv = Returned []\<rparr>)"

definition first_probe_env :: env where
  "first_probe_env =
    \<lparr>now = sample_clock, ping_call = sample_ping, sockets = first_probe_sockets,
     completion = sample_completion, json_dump = sample_dump,
     requests_post = sample_post\<rparr>"

definition second_probe_env :: env where
  "second_probe_env =
    \<lparr>now = sample_clock, ping_call = sample_ping, sockets = second_probe_sockets,
     completion = sample_completion, json_dump = sample_dump,
     requests_post = sample_post\<rparr>"

definition snapshot_ssh :: snapshot where
  "snapshot_ssh =
    [(22, \<lparr>service = ''ssh'', banner = ''SSH-2.0-OpenSSH_8.9'',
           timestamp = ''2025-03-01T12:00:00.000000''\<rparr>)]"

definition sample_target_a :: target where
  "sample_target_a =
    \<lparr>last_scan = snapshot_a, changes = [], start_time = ''2025-03-01T11:00:00.000000''\<rparr>"

definition sample_tool_a :: tool where
  "sample_tool_a =
    \<lparr>config = sample_config, monitored_ips = [(''192.168.1.10'', sample_target_a)],
     scanning_active = True, history = [], ticks = 0\<rparr>"

section \<open>Properties of the classifier\<close>

lemma lower_eq_Nil [simp]: "lower s = [] \<longleftrightarrow> s = []"
  by (simp add: lower_def)

lemma COMMON_SERVICES_labels_nonempty:
  "(p, name) \<in> set COMMON_SERVICES \<Longrightarrow> name \<noteq> []"
  unfolding COMMON_SERVICES_def by auto

lemma base_label_nonempty: "base_label port \<noteq> []"
  by (auto simp: base_label_def split: option.splits
      dest!: map_of_SomeD COMMON_SERVICES_labels_nonempty)

lemma lower_Nil [simp]: "lower [] = []"
  by (simp add: lower_def)

lemma base_label_443: "map_of COMMON_SERVICES 443 = Some ''https''"
  by (simp add: COMMON_SERVICES_def)

text \<open>
  Claim C8.  The classifier is total and its label is never empty: for every port and
  every banner (the empty one included) the label is a non-empty string; with an empty
  banner it is the table's label for the port, and \<open>unknown\<close> for a port that the table
  does not list.
\<close>

theorem classify_total_nonempty:
  "get_service_name port b \<noteq> []
   \<and> get_service_name port [] =
       (case map_of COMMON_SERVICES port of Some name \<Rightarrow> name | None \<Rightarrow> ''unknown'')
   \<and> (port \<notin> fst ` set COMMON_SERVICES \<longrightarrow> get_service_name port [] = ''unknown'')"
proof (intro conjI impI)
  have "get_service_name port b \<in>
      {''ssh'', ''http'', ''https'', ''smtp'', ''ftp'', ''mysql'', base_label port}"
    by (simp add: get_service_name_def base_label_def Let_def)
  with base_label_nonempty [of port] show "get_service_name port b \<noteq> []"
    by auto
next
  show "get_service_name port [] =
      (case map_of COMMON_SERVICES port of Some name \<Rightarrow> name | None \<Rightarrow> ''unknown'')"
    by (simp add: get_service_name_def)
next
  assume "port \<notin> fst ` set COMMON_SERVICES"
  then have "map_of COMMON_SERVICES port = None"
    by (simp add: map_of_eq_None_iff)
  then show "get_service_name port [] = ''unknown''"
    by (simp add: get_service_name_def)
qed

theorem classify_total_nonempty_witness:
  "get_service_name 4444 ''hello'' \<noteq> []
   \<and> get_service_name 22 [] = ''ssh''
   \<and> 4444 \<notin> fst ` set COMMON_SERVICES
   \<and> get_service_name 4444 [] = ''unknown''"
proof -
  note at_4444 = classify_total_nonempty [of 4444 "''hello''"]
  note at_22 = classify_total_nonempty [of 22 "[]"]
  have absent: "4444 \<notin> fst ` set COMMON_SERVICES"
    by (simp add: COMMON_SERVICES_def)
  have "get_service_name 4444 ''hello'' \<noteq> []"
    using at_4444 by blast
  moreover have "get_service_name 4444 [] = ''unknown''"
    using at_4444 absent by blast
  moreover have "get_service_name 22 [] = ''ssh''"
  proof -
    have "get_service_name 22 [] =
        (case map_of COMMON_SERVICES 22 of Some name \<Rightarrow> name | None \<Rightarrow> ''unknown'')"
      using at_22 by blast
    also have "\<dots> = ''ssh''"
      by (simp add: COMMON_SERVICES_def)
    finally show ?thesis .
  qed
  ultimately show ?thesis
    using absent by blast
qed

text \<open>
  Claim C9.  The banner refinement is an ordered list of keyword rules, ssh, http, smtp,
  ftp, mysql: the classifier returns what the first rule whose keyword occurs in the
  lower-cased banner gives (in place of the table's label), and the table's label
  when the banner is empty or no rule matches.  The match ignores letter case: two
  banners with the same lower-cased text get the same label.
\<close>

theorem classify_first_matching_rule:
  "map fst keyword_rules = [''ssh'', ''http'', ''smtp'', ''ftp'', ''mysql'']
   \<and> get_service_name port b = classify_by_rules port b
   \<and> (lower b = lower b' \<longrightarrow> get_service_name port b = get_service_name port b')"
proof (intro conjI impI)
  show "map fst keyword_rules = [''ssh'', ''http'', ''smtp'', ''ftp'', ''mysql'']"
    by (simp add: keyword_rules_def)
  show "get_service_name port b = classify_by_rules port b"
    by (simp add: get_service_name_def classify_by_rules_def keyword_rules_def
        base_label_def Let_def)
  assume same: "lower b = lower b'"
  then have "b = [] \<longleftrightarrow> b' = []"
    by (metis lower_eq_Nil)
  with same show "get_service_name port b = get_service_name port b'"
    by (simp add: get_service_name_def Let_def)
qed

theorem classify_first_matching_rule_witness:
  "lower ''220 FTP over HTTP'' = lower ''220 ftp OVER http''
   \<and> get_service_name 21 ''220 FTP over HTTP'' = get_service_name 21 ''220 ftp OVER http''
   \<and> get_service_name 21 ''220 FTP over HTTP'' = ''http''"
proof -
  have same: "lower ''220 FTP over HTTP'' = lower ''220 ftp OVER http''"
    by (simp add: lower_def lower_char_def ascii_uppercase_def ascii_lowercase_def)
  have "classify_by_rules 21 ''220 FTP over HTTP'' = ''http''"
    by (simp add: classify_by_rules_def keyword_rules_def lower_def lower_char_def
        ascii_uppercase_def ascii_lowercase_def sublist_Cons_right)
  with same classify_first_matching_rule [of 21 "''220 FTP over HTTP''" "''220 ftp OVER http''"]
  show ?thesis by metis
qed

text \<open>
  Claim C2, as stated, fails: on port 443 a banner that contains \<open>ssh\<close> is labelled
  \<open>ssh\<close>, because the ssh rule comes before the http rule.
\<close>

theorem ssh_banner_on_port_443:
  "get_service_name 443 ''SSH-2.0-OpenSSH_8.9'' = ''ssh''
   \<and> get_service_name 443 ''SSH-2.0-OpenSSH_8.9'' \<noteq> ''https''"
  by (simp add: get_service_name_def lower_def lower_char_def ascii_uppercase_def
      ascii_lowercase_def sublist_Cons_right)

text \<open>
  Claim C2, amended.  On port 443 the classifier returns the label of the first rule
  that matches the lower-cased banner: \<open>ssh\<close> when it contains \<open>ssh\<close>; otherwise \<open>https\<close>
  when it contains \<open>http\<close>; otherwise \<open>smtp\<close>, \<open>ftp\<close> or \<open>mysql\<close> when it contains
  that keyword, in this order; otherwise the table's label \<open>https\<close>.  So it returns
  \<open>https\<close> exactly for the banners that do not contain \<open>ssh\<close> and either contain
  \<open>http\<close> or contain none of \<open>smtp\<close>, \<open>ftp\<close>, \<open>mysql\<close> (the empty banner among them);
  and where the http rule decides (a non-empty banner with \<open>http\<close> and without \<open>ssh\<close>),
  the label is \<open>https\<close> when the port is 443 and \<open>http\<close> otherwise.
\<close>

theorem classify_443:
  "get_service_name 443 b =
     (if sublist ''ssh'' (lower b) then ''ssh''
      else if sublist ''http'' (lower b) then ''https''
      else if sublist ''smtp'' (lower b) then ''smtp''
      else if sublist ''ftp'' (lower b) then ''ftp''
      else if sublist ''mysql'' (lower b) then ''mysql''
      else ''https'')
   \<and> (get_service_name 443 b = ''https'' \<longleftrightarrow>
      \<not> sublist ''ssh'' (lower b)
      \<and> (sublist ''http'' (lower b)
          \<or> \<not> sublist ''smtp'' (lower b) \<and> \<not> sublist ''ftp'' (lower b)
             \<and> \<not> sublist ''mysql'' (lower b)))
   \<and> (b \<noteq> [] \<and> \<not> sublist ''ssh'' (lower b) \<and> sublist ''http'' (lower b) \<longrightarrow>
        get_service_name port b = (if port = 443 then ''https'' else ''http''))"
  by (auto simp: get_service_name_def Let_def base_label_443)

theorem classify_443_witness:
  "get_service_name 443 ''HTTP/1.1 400 Bad Request'' = ''https''
   \<and> get_service_name 443 [] = ''https''
   \<and> get_service_name 80 ''HTTP/1.1 400 Bad Request'' = ''http''
   \<and> get_service_name 443 ''220 mail ESMTP'' = ''smtp''
   \<and> get_service_name 443 ''220 mail ESMTP'' \<noteq> ''https''
   \<and> get_service_name 443 ''SSH-2.0 over HTTP'' = ''ssh''
   \<and> get_service_name 443 ''220 ProFTPD'' = ''ftp''
   \<and> get_service_name 443 ''5.7.42 MySQL'' = ''mysql''"
proof -
  have l1: "lower ''HTTP/1.1 400 Bad Request'' = ''http/1.1 400 bad request''"
    by (simp add: lower_def lower_char_def ascii_uppercase_def ascii_lowercase_def)
  have l2: "lower ''220 mail ESMTP'' = ''220 mail esmtp''"
    by (simp add: lower_def lower_char_def ascii_uppercase_def ascii_lowercase_def)
  have l3: "lower ''SSH-2.0 over HTTP'' = ''ssh-2.0 over http''"
    by (simp add: lower_def lower_char_def ascii_uppercase_def ascii_lowercase_def)
  have l4: "lower ''220 ProFTPD'' = ''220 proftpd''"
    by (simp add: lower_def lower_char_def ascii_uppercase_def ascii_lowercase_def)
  have l5: "lower ''5.7.42 MySQL'' = ''5.7.42 mysql''"
    by (simp add: lower_def lower_char_def ascii_uppercase_def ascii_lowercase_def)
  show ?thesis
    using classify_443 [of "''HTTP/1.1 400 Bad Request''" 80]
      classify_443 [of "[]" 443] classify_443 [of "''220 mail ESMTP''" 443]
      classify_443 [of "''SSH-2.0 over HTTP''" 443]
      classify_443 [of "''220 ProFTPD''" 443] classify_443 [of "''5.7.42 MySQL''" 443]
    by (simp add: l1 l2 l3 l4 l5 sublist_Cons_right)
qed

section \<open>Properties of the differ\<close>

lemma opened_loop_events:
  "map event_of (opened_loop clk ip old_scan items found) =
     map event_of found @
     map (\<lambda>(p, info). (''port_opened'', p, [service info]))
       (filter (\<lambda>(p, info). map_of old_scan p = None) items)"
  by (induction items arbitrary: found) (auto simp: event_of_def)

lemma closed_loop_events:
  "map event_of (closed_loop clk ip new_scan items found) =
     map event_of found @
     map (\<lambda>(p, info). (''port_closed'', p, [service info]))
       (filter (\<lambda>(p, info). map_of new_scan p = None) items)"
  by (induction items arbitrary: found) (auto simp: event_of_def)

lemma service_loop_events:
  "map event_of (service_loop clk ip old_scan items found) =
     map event_of found @
     map (\<lambda>(p, info).
            (''service_change'', p, [service (the (map_of old_scan p)), service info]))
       (filter (\<lambda>(p, info). case map_of old_scan p of None \<Rightarrow> False
                  | Some old_info \<Rightarrow> service info \<noteq> service old_info) items)"
  by (induction items arbitrary: found) (auto simp: event_of_def split: option.splits)

text \<open>The events of a diff: three blocks, each a filter of one snapshot in its order.\<close>

lemma detect_changes_events:
  "map event_of (detect_changes clk old_scan new_scan ip) =
     map (\<lambda>(p, info). (''port_opened'', p, [service info]))
       (filter (\<lambda>(p, info). map_of old_scan p = None) new_scan) @
     map (\<lambda>(p, info). (''port_closed'', p, [service info]))
       (filter (\<lambda>(p, info). map_of new_scan p = None) old_scan) @
     map (\<lambda>(p, info).
            (''service_change'', p, [service (the (map_of old_scan p)), service info]))
       (filter (\<lambda>(p, info). case map_of old_scan p of None \<Rightarrow> False
                  | Some old_info \<Rightarrow> service info \<noteq> service old_info) new_scan)"
  by (simp add: detect_changes_def service_loop_events closed_loop_events opened_loop_events)

lemma count_key:
  "distinct (map fst xs) \<Longrightarrow>
   length (filter (\<lambda>(q, info). q = p \<and> P info) xs) =
     (case map_of xs p of None \<Rightarrow> 0 | Some info \<Rightarrow> if P info then 1 else 0)"
proof (induction xs)
  case Nil
  then show ?case by simp
next
  case (Cons x xs)
  obtain q info where x: "x = (q, info)" by (cases x)
  show ?case
  proof (cases "q = p")
    case True
    with Cons.prems x have absent: "p \<notin> fst ` set xs" by auto
    then have "filter (\<lambda>(q, info). q = p \<and> P info) xs = []"
      by (force simp: filter_empty_conv)
    with True x absent show ?thesis
      by (simp add: map_of_eq_None_iff)
  next
    case False
    with Cons x show ?thesis by simp
  qed
qed

lemma count_events:
  "length (filter (\<lambda>c. change_type c = ty \<and> change_port c = p) cs) =
   length (filter (\<lambda>e. fst e = ty \<and> fst (snd e) = p) (map event_of cs))"
  by (simp add: filter_map comp_def event_of_def)

lemma opened_count:
  assumes "distinct (map fst new_scan)"
  shows "length (filter (\<lambda>c. change_type c = ''port_opened'' \<and> change_port c = p)
           (detect_changes clk old_scan new_scan ip)) =
         (if map_of new_scan p \<noteq> None \<and> map_of old_scan p = None then 1 else 0)"
proof -
  have "length (filter (\<lambda>c. change_type c = ''port_opened'' \<and> change_port c = p)
           (detect_changes clk old_scan new_scan ip)) =
        length (filter (\<lambda>(q, info). q = p \<and> map_of old_scan p = None) new_scan)"
    unfolding count_events detect_changes_events
    by (simp add: filter_map comp_def case_prod_unfold conj_commute cong: conj_cong)
  also have "\<dots> = (case map_of new_scan p of None \<Rightarrow> 0
                    | Some info \<Rightarrow> if map_of old_scan p = None then 1 else 0)"
    using assms by (rule count_key)
  finally show ?thesis by (simp split: option.splits)
qed

lemma closed_count:
  assumes "distinct (map fst old_scan)"
  shows "length (filter (\<lambda>c. change_type c = ''port_closed'' \<and> change_port c = p)
           (detect_changes clk old_scan new_scan ip)) =
         (if map_of old_scan p \<noteq> None \<and> map_of new_scan p = None then 1 else 0)"
proof -
  have "length (filter (\<lambda>c. change_type c = ''port_closed'' \<and> change_port c = p)
           (detect_changes clk old_scan new_scan ip)) =
        length (filter (\<lambda>(q, info). q = p \<and> map_of new_scan p = None) old_scan)"
    unfolding count_events detect_changes_events
    by (simp add: filter_map comp_def case_prod_unfold conj_commute cong: conj_cong)
  also have "\<dots> = (case map_of old_scan p of None \<Rightarrow> 0
                    | Some info \<Rightarrow> if map_of new_scan p = None then 1 else 0)"
    using assms by (rule count_key)
  finally show ?thesis by (simp split: option.splits)
qed

lemma service_count:
  assumes "distinct (map fst new_scan)"
  shows "length (filter (\<lambda>c. change_type c = ''service_change'' \<and> change_port c = p)
           (detect_changes clk old_scan new_scan ip)) =
         (case (map_of old_scan p, map_of new_scan p) of
            (Some old_info, Some new_info) \<Rightarrow>
               if service new_info \<noteq> service old_info then 1 else 0
          | _ \<Rightarrow> 0)"
proof -
  have "length (filter (\<lambda>c. change_type c = ''service_change'' \<and> change_port c = p)
           (detect_changes clk old_scan new_scan ip)) =
        length (filter (\<lambda>(q, info). q = p \<and> (case map_of old_scan p of None \<Rightarrow> False
                  | Some old_info \<Rightarrow> service info \<noteq> service old_info)) new_scan)"
    unfolding count_events detect_changes_events
    by (simp add: filter_map comp_def case_prod_unfold conj_commute cong: conj_cong)
  also have "\<dots> = (case map_of new_scan p of None \<Rightarrow> 0
                    | Some info \<Rightarrow> if (case map_of old_scan p of None \<Rightarrow> False
                  | Some old_info \<Rightarrow> service info \<noteq> service old_info) then 1 else 0)"
    using assms by (rule count_key)
  finally show ?thesis by (simp split: option.splits)
qed

lemma unchanged_port_no_event:
  assumes "distinct (map fst new_scan)"
    and "map_of old_scan p = Some old_info" and "map_of new_scan p = Some new_info"
    and "service new_info = service old_info"
  shows "p \<notin> change_port ` set (detect_changes clk old_scan new_scan ip)"
proof
  assume "p \<in> change_port ` set (detect_changes clk old_scan new_scan ip)"
  then obtain c where c: "c \<in> set (detect_changes clk old_scan new_scan ip)"
    and port: "change_port c = p" by auto
  from c have "event_of c \<in> set (map event_of (detect_changes clk old_scan new_scan ip))"
    by simp
  then consider
      (opened) info where "(p, info) \<in> set new_scan" "map_of old_scan p = None"
    | (closed) info where "(p, info) \<in> set old_scan" "map_of new_scan p = None"
    | (changed) info where "(p, info) \<in> set new_scan"
        "case map_of old_scan p of None \<Rightarrow> False
         | Some old_info \<Rightarrow> service info \<noteq> service old_info"
    unfolding detect_changes_events using port
    by (auto simp: event_of_def)
  then show False
  proof cases
    case opened
    with assms(2) show False by simp
  next
    case closed
    with assms(3) show False by simp
  next
    case changed
    from changed(1) assms(1) have "map_of new_scan p = Some info"
      by (rule map_of_is_SomeI [rotated])
    with assms(3) have "info = new_info" by simp
    with changed(2) assms(2,4) show False by simp
  qed
qed

text \<open>
  Claim C4.  For snapshots \<open>old_scan\<close> and \<open>new_scan\<close> (dictionaries, so their keys are
  distinct) and every port \<open>p\<close>, the diff holds exactly one \<open>port_opened\<close> event for \<open>p\<close>
  when \<open>p\<close> is in the new snapshot and not in the old one, and none otherwise; exactly
  one \<open>port_closed\<close> event for \<open>p\<close> when \<open>p\<close> is in the old snapshot and not in the new
  one, and none otherwise; exactly one \<open>service_change\<close> event for \<open>p\<close> when \<open>p\<close> is in
  both with different service labels, and none otherwise; and no event at all for a
  port that is in both with the same service label, whatever the banners are.
\<close>

theorem detect_changes_exact:
  assumes "distinct (map fst old_scan)" and "distinct (map fst new_scan)"
  shows
    "length (filter (\<lambda>c. change_type c = ''port_opened'' \<and> change_port c = p)
        (detect_changes clk old_scan new_scan ip)) =
       (if map_of new_scan p \<noteq> None \<and> map_of old_scan p = None then 1 else 0)
     \<and> length (filter (\<lambda>c. change_type c = ''port_closed'' \<and> change_port c = p)
        (detect_changes clk old_scan new_scan ip)) =
       (if map_of old_scan p \<noteq> None \<and> map_of new_scan p = None then 1 else 0)
     \<and> length (filter (\<lambda>c. change_type c = ''service_change'' \<and> change_port c = p)
        (detect_changes clk old_scan new_scan ip)) =
       (case (map_of old_scan p, map_of new_scan p) of
          (Some old_info, Some new_info) \<Rightarrow>
             if service new_info \<noteq> service old_info then 1 else 0
        | _ \<Rightarrow> 0)
     \<and> (\<forall>old_info new_info.
           map_of old_scan p = Some old_info \<and> map_of new_scan p = Some new_info
           \<and> service new_info = service old_info \<longrightarrow>
           p \<notin> change_port ` set (detect_changes clk old_scan new_scan ip))"
  using assms opened_count [of new_scan p clk old_scan ip]
    closed_count [of old_scan p clk new_scan ip]
    service_count [of new_scan p clk old_scan ip]
    unchanged_port_no_event [of new_scan old_scan p _ _ clk ip]
  by blast

theorem detect_changes_exact_witness:
  "distinct (map fst snapshot_a) \<and> distinct (map fst snapshot_b)
   \<and> length (filter (\<lambda>c. change_type c = ''port_opened'' \<and> change_port c = 443)
        (detect_changes sample_clock snapshot_a snapshot_b ''192.168.1.10'')) = 1
   \<and> length (filter (\<lambda>c. change_type c = ''port_closed'' \<and> change_port c = 8080)
        (detect_changes sample_clock snapshot_a snapshot_b ''192.168.1.10'')) = 1
   \<and> length (filter (\<lambda>c. change_type c = ''service_change'' \<and> change_port c = 22)
        (detect_changes sample_clock snapshot_a snapshot_b ''192.168.1.10'')) = 1
   \<and> banner (the (map_of snapshot_a 80)) \<noteq> banner (the (map_of snapshot_b 80))
   \<and> 80 \<notin> change_port ` set (detect_changes sample_clock snapshot_a snapshot_b ''192.168.1.10'')"
proof -
  have da: "distinct (map fst snapshot_a)" and db: "distinct (map fst snapshot_b)"
    by (simp_all add: snapshot_a_def snapshot_b_def)
  note at = detect_changes_exact [OF da db, of _ sample_clock "''192.168.1.10''"]
  have "length (filter (\<lambda>c. change_type c = ''port_opened'' \<and> change_port c = 443)
        (detect_changes sample_clock snapshot_a snapshot_b ''192.168.1.10'')) = 1"
    using at [of 443] by (simp add: snapshot_a_def snapshot_b_def)
  moreover have "length (filter (\<lambda>c. change_type c = ''port_closed'' \<and> change_port c = 8080)
        (detect_changes sample_clock snapshot_a snapshot_b ''192.168.1.10'')) = 1"
    using at [of 8080] by (simp add: snapshot_a_def snapshot_b_def)
  moreover have "length (filter (\<lambda>c. change_type c = ''service_change'' \<and> change_port c = 22)
        (detect_changes sample_clock snapshot_a snapshot_b ''192.168.1.10'')) = 1"
    using at [of 22] by (simp add: snapshot_a_def snapshot_b_def)
  moreover have
    "80 \<notin> change_port ` set (detect_changes sample_clock snapshot_a snapshot_b ''192.168.1.10'')"
    using at [of 80] by (simp add: snapshot_a_def snapshot_b_def)
  moreover have "banner (the (map_of snapshot_a 80)) \<noteq> banner (the (map_of snapshot_b 80))"
    by (simp add: snapshot_a_def snapshot_b_def)
  ultimately show ?thesis using da db by blast
qed

text \<open>
  Claim C5.  The diff of a snapshot with itself is the empty sequence, for every
  snapshot (a dictionary, so its keys are distinct).
\<close>

theorem detect_changes_same_snapshot:
  assumes "distinct (map fst S)"
  shows "detect_changes clk S S ip = []"
proof -
  have "map event_of (detect_changes clk S S ip) = []"
    unfolding detect_changes_events using assms
    by (auto simp: filter_empty_conv map_of_eq_None_iff image_iff split: option.splits)
  then show ?thesis by simp
qed

theorem detect_changes_same_snapshot_witness:
  "distinct (map fst snapshot_a)
   \<and> detect_changes sample_clock snapshot_a snapshot_a ''192.168.1.10'' = []"
proof -
  have da: "distinct (map fst snapshot_a)"
    by (simp add: snapshot_a_def)
  from da detect_changes_same_snapshot [OF da, of sample_clock "''192.168.1.10''"]
  show ?thesis by blast
qed

text \<open>
  Claim C10.  The events of a diff are grouped by type in a fixed order: first all the
  \<open>port_opened\<close> events, then all the \<open>port_closed\<close> events, then all the
  \<open>service_change\<close> events; so every opened event comes before every closed event and
  every closed event before every service change.
\<close>

theorem detect_changes_grouped:
  "map change_type (detect_changes clk old_scan new_scan ip) =
     replicate (length (filter (\<lambda>(p, info). map_of old_scan p = None) new_scan))
       ''port_opened'' @
     replicate (length (filter (\<lambda>(p, info). map_of new_scan p = None) old_scan))
       ''port_closed'' @
     replicate (length (filter (\<lambda>(p, info). case map_of old_scan p of None \<Rightarrow> False
                  | Some old_info \<Rightarrow> service info \<noteq> service old_info) new_scan))
       ''service_change''"
proof -
  have "map change_type (detect_changes clk old_scan new_scan ip) =
        map fst (map event_of (detect_changes clk old_scan new_scan ip))"
    by (simp add: event_of_def comp_def)
  then show ?thesis
    unfolding detect_changes_events
    by (simp add: comp_def case_prod_unfold map_replicate_const)
qed

section \<open>Properties of the scanner\<close>

lemma scan_port_result:
  "scan_port w =
     Inr (case connect_ex w of
            Raised e \<Rightarrow> (False, [])
          | Returned result \<Rightarrow>
              if result = 0 then (True, case recv w of Returned text \<Rightarrow> text | Raised e \<Rightarrow> [])
              else (False, []))"
  by (simp add: scan_port_def scan_port_try_def split: outcome.splits)

lemma log_fields [simp]:
  "monitored_ips (log env message level s) = monitored_ips s"
  "config (log env message level s) = config s"
  "scanning_active (log env message level s) = scanning_active s"
  "ticks (log env message level s) = Suc (ticks s)"
  by (simp_all add: log_def Let_def)

lemma update_entry:
  "(p, info) \<in> set (AList.update k v al) \<Longrightarrow> (p, info) = (k, v) \<or> (p, info) \<in> set al"
  by (induction al) (auto split: if_splits)

lemma collect_keys:
  "fst ` set (fst (collect env ip fs (acc, s))) =
     fst ` set acc \<union> {port. \<exists>i text. (i, port, Inr (True, text)) \<in> set fs}"
proof (induction fs arbitrary: acc s)
  case Nil
  then show ?case by simp
next
  case (Cons f fs)
  obtain i port r where f: "f = (i, port, r)" by (cases f)
  show ?case
  proof (cases r)
    case (Inl e)
    with f show ?thesis by (auto simp: Cons.IH)
  next
    case (Inr res)
    obtain is_open tx where res: "res = (is_open, tx)" by (cases res)
    show ?thesis
    proof (cases is_open)
      case True
      with f Inr res show ?thesis
        by (auto simp: Cons.IH AList.dom_update)
    next
      case False
      with f Inr res show ?thesis
        by (auto simp: Cons.IH)
    qed
  qed
qed

lemma collect_distinct:
  "distinct (map fst acc) \<Longrightarrow> distinct (map fst (fst (collect env ip fs (acc, s))))"
proof (induction fs arbitrary: acc s)
  case Nil
  then show ?case by simp
next
  case (Cons f fs)
  obtain i port r where f: "f = (i, port, r)" by (cases f)
  show ?case
    using Cons.prems f
    by (auto simp: AList.distinct_update split: sum.splits intro!: Cons.IH)
qed

lemma collect_entries:
  "(p, info) \<in> set (fst (collect env ip fs (acc, s))) \<Longrightarrow>
   (p, info) \<in> set acc \<or>
   (\<exists>i text t. (i, p, Inr (True, text)) \<in> set fs \<and>
      info = \<lparr>service = get_service_name p text, banner = text,
              timestamp = isoformat (now env t)\<rparr>)"
proof (induction fs arbitrary: acc s)
  case Nil
  then show ?case by simp
next
  case (Cons f fs)
  obtain i port r where f: "f = (i, port, r)" by (cases f)
  show ?case
  proof (cases r)
    case (Inl e)
    with f Cons.prems have "(p, info) \<in> set (fst (collect env ip fs (acc,
        log env (''Error scanning port '' @ str_int port @ '' on '' @ ip @ '': ''
                        @ str_exn e) ''ERROR'' s)))"
      by simp
    from Cons.IH [OF this] show ?thesis by auto
  next
    case (Inr res)
    obtain is_open tx where res: "res = (is_open, tx)" by (cases res)
    show ?thesis
    proof (cases is_open)
      case True
      with f Inr res Cons.prems have "(p, info) \<in> set (fst (collect env ip fs
        (AList.update port
                 \<lparr>service = get_service_name port tx, banner = tx,
                  timestamp = isoformat (now env (ticks s))\<rparr> acc,
               s\<lparr>ticks := Suc (ticks s)\<rparr>)))"
        by simp
      from Cons.IH [OF this] show ?thesis
        using f Inr res True by (auto dest!: update_entry)
    next
      case False
      with f Inr res Cons.prems have "(p, info) \<in> set (fst (collect env ip fs (acc, s)))"
        by simp
      from Cons.IH [OF this] show ?thesis by auto
    qed
  qed
qed

lemma collect_state:
  "monitored_ips (snd (collect env ip fs (acc, s))) = monitored_ips s
   \<and> config (snd (collect env ip fs (acc, s))) = config s
   \<and> scanning_active (snd (collect env ip fs (acc, s))) = scanning_active s"
proof (induction fs arbitrary: acc s)
  case Nil
  then show ?case by simp
next
  case (Cons f fs)
  obtain i port r where f: "f = (i, port, r)" by (cases f)
  show ?case
    using f by (auto simp: Cons.IH split: sum.splits)
qed

lemma future_to_port_set:
  "(i, port, r) \<in> set (future_to_port env t ip ports) \<longleftrightarrow>
     i < length ports \<and> ports ! i = port \<and> scan_port (sockets env (t + i) ip port) = r"
proof -
  have "(i, port, r) \<in> set (future_to_port env t ip ports) \<longleftrightarrow>
        (i, port) \<in> set (enumerate 0 ports) \<and> r = scan_port (sockets env (t + i) ip port)"
    by (auto simp: future_to_port_def)
  then show ?thesis
    by (auto simp: in_set_enumerate_eq)
qed

lemma future_to_port_ports:
  "map (\<lambda>f. fst (snd f)) (future_to_port env t ip ports) = ports"
  by (simp add: future_to_port_def comp_def case_prod_unfold map_snd_enumerate)

lemma as_completed_set [simp]: "set (as_completed env t fs) = set fs"
  by (simp add: as_completed_def)

lemma scan_ports_fst:
  "0 < max_workers (config s) \<Longrightarrow>
   fst (scan_ports env ip ports s) =
     Inr (fst (collect env ip
            (as_completed env (ticks s) (future_to_port env (ticks s) ip (ports_to_scan ports)))
            ([], s\<lparr>ticks := ticks s + length (ports_to_scan ports)\<rparr>)))"
  by (simp add: scan_ports_def Let_def case_prod_unfold)

lemma scan_ports_snd:
  "0 < max_workers (config s) \<Longrightarrow>
   snd (scan_ports env ip ports s) =
     snd (collect env ip
            (as_completed env (ticks s) (future_to_port env (ticks s) ip (ports_to_scan ports)))
            ([], s\<lparr>ticks := ticks s + length (ports_to_scan ports)\<rparr>))"
  by (simp add: scan_ports_def Let_def case_prod_unfold)

lemma scan_ports_raises:
  "\<not> 0 < max_workers (config s) \<Longrightarrow>
   scan_ports env ip ports s = (Inl (ValueError ''max_workers must be greater than 0''), s)"
  by (simp add: scan_ports_def Let_def)

lemma scan_ports_state:
  "monitored_ips (snd (scan_ports env ip ports s)) = monitored_ips s
   \<and> config (snd (scan_ports env ip ports s)) = config s
   \<and> scanning_active (snd (scan_ports env ip ports s)) = scanning_active s"
proof (cases "0 < max_workers (config s)")
  case True
  then show ?thesis
    by (simp add: scan_ports_snd collect_state)
next
  case False
  then show ?thesis
    by (simp add: scan_ports_raises)
qed

lemma scan_ports_keys:
  assumes "0 < max_workers (config s)" and "fst (scan_ports env ip ports s) = Inr snap"
  shows "fst ` set snap =
     {p. \<exists>i tx. i < length (ports_to_scan ports) \<and> ports_to_scan ports ! i = p
           \<and> scan_port (sockets env (ticks s + i) ip p) = Inr (True, tx)}"
proof -
  from assms have snap: "snap = fst (collect env ip
            (as_completed env (ticks s) (future_to_port env (ticks s) ip (ports_to_scan ports)))
            ([], s\<lparr>ticks := ticks s + length (ports_to_scan ports)\<rparr>))"
    by (simp add: scan_ports_fst)
  show ?thesis
    unfolding snap collect_keys
    by (simp add: future_to_port_set)
qed

lemma scan_ports_distinct:
  assumes "0 < max_workers (config s)" and "fst (scan_ports env ip ports s) = Inr snap"
  shows "distinct (map fst snap)"
  using assms collect_distinct [of "[]"] by (auto simp: scan_ports_fst)

lemma scan_ports_entries:
  assumes "0 < max_workers (config s)" and "fst (scan_ports env ip ports s) = Inr snap"
    and "(p, info) \<in> set snap"
  shows "\<exists>i tx t. i < length (ports_to_scan ports) \<and> ports_to_scan ports ! i = p
           \<and> scan_port (sockets env (ticks s + i) ip p) = Inr (True, tx)
           \<and> info = \<lparr>service = get_service_name p tx, banner = tx,
                      timestamp = isoformat (now env t)\<rparr>"
proof -
  from assms have "(p, info) \<in> set (fst (collect env ip
            (as_completed env (ticks s) (future_to_port env (ticks s) ip (ports_to_scan ports)))
            ([], s\<lparr>ticks := ticks s + length (ports_to_scan ports)\<rparr>)))"
    by (simp add: scan_ports_fst)
  from collect_entries [OF this] show ?thesis
    by (simp add: future_to_port_set)
qed

text \<open>
  Claim C7.  A probe never raises to its caller: \<^verbatim>\<open>scan_port\<close> always returns a pair, and
  whenever the connection is not established (an exception of the socket calls, or a
  non-zero code from \<^verbatim>\<open>connect_ex\<close>) the pair is closed with an empty banner.  No probe
  outcome aborts the scan: with a positive \<open>max_workers\<close> the scan returns a snapshot, and
  its ports are exactly the ports for which some submitted probe found the port open,
  whatever the other probes did.
\<close>

theorem probe_failures_contained:
  "(\<exists>is_open tx. scan_port w = Inr (is_open, tx))
   \<and> (connect_ex w \<noteq> Returned 0 \<longrightarrow> scan_port w = Inr (False, []))
   \<and> (0 < max_workers (config s) \<longrightarrow>
        (\<exists>snap. fst (scan_ports env ip ports s) = Inr snap
           \<and> fst ` set snap =
               {p. \<exists>i tx. i < length (ports_to_scan ports) \<and> ports_to_scan ports ! i = p
                     \<and> scan_port (sockets env (ticks s + i) ip p) = Inr (True, tx)}))"
proof (intro conjI impI)
  show "\<exists>is_open tx. scan_port w = Inr (is_open, tx)"
    by (simp add: scan_port_result split: outcome.splits)
  show "scan_port w = Inr (False, [])" if "connect_ex w \<noteq> Returned 0"
    using that by (simp add: scan_port_result split: outcome.splits)
  show "\<exists>snap. fst (scan_ports env ip ports s) = Inr snap
           \<and> fst ` set snap =
               {p. \<exists>i tx. i < length (ports_to_scan ports) \<and> ports_to_scan ports ! i = p
                     \<and> scan_port (sockets env (ticks s + i) ip p) = Inr (True, tx)}"
    if "0 < max_workers (config s)"
    using that scan_ports_keys [OF that] by (simp add: scan_ports_fst)
qed

lemma lower_404: "lower ''HTTP/1.1 404 Not Found'' = ''http/1.1 404 not found''"
  by (simp add: lower_def lower_char_def ascii_uppercase_def ascii_lowercase_def)

lemma service_404: "get_service_name 80 ''HTTP/1.1 404 Not Found'' = ''http''"
  by (simp add: get_service_name_def lower_404 sublist_Cons_right)

lemma sample_scan_three:
  "fst (scan_ports sample_env ''192.168.1.10'' (Some [22, 80, 81]) sample_tool) = Inr snapshot_d"
  by (simp add: scan_ports_def ports_to_scan_def sample_tool_def sample_config_def
      future_to_port_def as_completed_def sample_env_def sample_completion_def
      scan_port_def scan_port_try_def sample_sockets_def service_404 sample_clock_def
      snapshot_d_def)

lemma sample_scan_port:
  "scan_port (sample_sockets t ip p) =
     Inr (if p = 80 then (True, ''HTTP/1.1 404 Not Found'') else (False, []))"
  by (simp add: scan_port_result sample_sockets_def)

lemma sample_open_iff: "scan_port (sockets sample_env t ip p) = Inr (True, tx) \<longleftrightarrow>
      p = 80 \<and> tx = ''HTTP/1.1 404 Not Found''"
    by (simp add: sample_env_def sample_scan_port eq_commute [of "''HTTP/1.1 404 Not Found''"])

theorem probe_failures_contained_witness:
  "connect_ex (sample_sockets 0 ''192.168.1.10'' 22) \<noteq> Returned 0
   \<and> scan_port (sample_sockets 0 ''192.168.1.10'' 22) = Inr (False, [])
   \<and> 0 < max_workers (config sample_tool)
   \<and> fst (scan_ports sample_env ''192.168.1.10'' (Some [22, 80, 81]) sample_tool)
       = Inr snapshot_d"
proof -
  have failed: "connect_ex (sample_sockets 0 ''192.168.1.10'' 22) \<noteq> Returned 0"
    by (simp add: sample_sockets_def)
  have workers: "0 < max_workers (config sample_tool)"
    by (simp add: sample_tool_def sample_config_def)
  note at = probe_failures_contained [of "sample_sockets 0 ''192.168.1.10'' 22" sample_tool
      sample_env "''192.168.1.10''" "Some [22, 80, 81]"]
  from at failed have "scan_port (sample_sockets 0 ''192.168.1.10'' 22) = Inr (False, [])"
    by (rule conjunct2 [THEN conjunct1, THEN mp])
  with failed workers sample_scan_three show ?thesis
    by (intro conjI)
qed

lemma distinct_count_list:
  "distinct xs \<Longrightarrow> count_list xs x = (if x \<in> set xs then 1 else 0)"
  by (induction xs) auto

lemma COMMON_SERVICES_keys_distinct: "distinct (map fst COMMON_SERVICES)"
  by (simp add: COMMON_SERVICES_def)

lemma key_22: "22 \<in> fst ` set COMMON_SERVICES"
  by (simp add: COMMON_SERVICES_def)

lemma key_80: "80 \<in> fst ` set COMMON_SERVICES"
  by (simp add: COMMON_SERVICES_def)

lemma count_default_ports:
  "count_list (ports_to_scan None) p =
     (if p \<in> fst ` set COMMON_SERVICES then 1 else 0) + (if 1 \<le> p \<and> p \<le> 1000 then 1 else 0)"
  by (simp add: ports_to_scan_def distinct_count_list COMMON_SERVICES_keys_distinct
      del: upto_rec_numeral)

lemma ports_to_scan_None: "ports_to_scan None = map fst COMMON_SERVICES @ [1..1000]"
  by (simp add: ports_to_scan_def del: upto_rec_numeral)

lemma set_default_ports:
  "set (ports_to_scan None) = fst ` set COMMON_SERVICES \<union> {1..1000}"
  by (simp add: ports_to_scan_def del: upto_rec_numeral)

lemma not_distinct_default: "\<not> distinct (ports_to_scan None)"
proof -
  have "22 \<in> set (map fst COMMON_SERVICES)"
    using key_22 by simp
  moreover have "(22::int) \<in> set [1..1000]"
    by (simp only: set_upto) simp
  ultimately have "set (map fst COMMON_SERVICES) \<inter> set [1..1000] \<noteq> {}"
    by blast
  then have "\<not> distinct (map fst COMMON_SERVICES @ [1..1000])"
    by (simp only: distinct_append) blast
  then show ?thesis
    by (subst ports_to_scan_None)
qed

lemma singleton_alist:
  assumes "distinct (map fst xs)" and "fst ` set xs = {k}"
  shows "\<exists>v. xs = [(k, v)]"
proof (cases xs)
  case Nil
  with assms(2) show ?thesis by simp
next
  case (Cons x rest)
  with assms(2) have x: "fst x = k" by auto
  have "rest = []"
  proof (rule ccontr)
    assume "rest \<noteq> []"
    then obtain y where y: "y \<in> set rest" by (cases rest) auto
    with Cons assms(2) have "fst y = k" by auto
    with y have "k \<in> fst ` set rest" by force
    with x Cons assms(1) show False by simp
  qed
  with Cons x show ?thesis by (cases x) auto
qed

lemma sample_default_scan:
  assumes "0 < max_workers (config s)"
  shows "fst (scan_ports sample_env ip None s) = Inr snapshot_d"
proof -
  obtain snap where snap: "fst (scan_ports sample_env ip None s) = Inr snap"
    using assms by (simp add: scan_ports_fst)
  have "80 \<in> set (ports_to_scan None)"
    using key_80 by (simp add: set_default_ports)
  then obtain i where i: "i < length (ports_to_scan None)" "ports_to_scan None ! i = 80"
    by (auto simp: in_set_conv_nth)
  have keys: "fst ` set snap = {80}"
  proof (intro equalityI subsetI)
    fix p assume "p \<in> fst ` set snap"
    then obtain j tx where "scan_port (sockets sample_env (ticks s + j) ip p) = Inr (True, tx)"
      unfolding scan_ports_keys [OF assms snap] by blast
    then show "p \<in> {80}" by (simp add: sample_open_iff)
  next
    fix p :: int assume "p \<in> {80}"
    then have p: "p = 80" by simp
    have "scan_port (sockets sample_env (ticks s + i) ip 80) =
        Inr (True, ''HTTP/1.1 404 Not Found'')"
      by (simp add: sample_open_iff)
    with i p show "p \<in> fst ` set snap"
      unfolding scan_ports_keys [OF assms snap] by blast
  qed
  from singleton_alist [OF scan_ports_distinct [OF assms snap] keys]
  obtain info where single: "snap = [(80, info)]" ..
  then have "(80, info) \<in> set snap" by simp
  from scan_ports_entries [OF assms snap this]
  obtain j tx t where "scan_port (sockets sample_env (ticks s + j) ip 80) = Inr (True, tx)"
    and info: "info = \<lparr>service = get_service_name 80 tx, banner = tx,
                      timestamp = isoformat (now sample_env t)\<rparr>"
    by blast
  then have "tx = ''HTTP/1.1 404 Not Found''"
    by (simp add: sample_open_iff)
  with info have "info = \<lparr>service = ''http'', banner = ''HTTP/1.1 404 Not Found'',
           timestamp = ''2025-03-01T12:00:00.000000''\<rparr>"
    by (simp add: sample_env_def sample_clock_def service_404)
  with single snap show ?thesis
    by (simp add: snapshot_d_def)
qed

lemma collect_ticks:
  "ticks (snd (collect env ip fs (acc, s))) =
     ticks s + length (filter future_open fs) + length (filter (\<lambda>f. isl (snd (snd f))) fs)"
proof (induction fs arbitrary: acc s)
  case Nil
  then show ?case by simp
next
  case (Cons f fs)
  obtain i port r where f: "f = (i, port, r)" by (cases f)
  show ?case
  proof (cases r)
    case (Inl e)
    with f show ?thesis by (simp add: Cons.IH)
  next
    case (Inr res)
    obtain is_open tx where res: "res = (is_open, tx)" by (cases res)
    with f Inr show ?thesis by (simp add: Cons.IH)
  qed
qed

lemma future_to_port_no_Inl:
  "filter (\<lambda>f. isl (snd (snd f))) (future_to_port env t ip ports) = []"
  by (auto simp: filter_empty_conv future_to_port_def scan_port_result)

lemma scan_ports_ticks:
  assumes "0 < max_workers (config s)"
  shows "ticks (snd (scan_ports env ip ports s)) =
     ticks s + length (ports_to_scan ports)
     + length (filter future_open (future_to_port env (ticks s) ip (ports_to_scan ports)))"
proof -
  have "filter P (as_completed env t fs) = as_completed env t (filter P fs)" for P t fs
    by (simp add: as_completed_def filter_sort)
  then have len: "length (filter P (as_completed env t fs)) = length (filter P fs)" for P t fs
    by (simp add: as_completed_def)
  show ?thesis
    by (simp add: scan_ports_snd [OF assms] collect_ticks len future_to_port_no_Inl)
qed

lemma length_default_ports: "length (ports_to_scan None) = 1079"
  by (simp add: ports_to_scan_None COMMON_SERVICES_def del: upto_rec_numeral)

lemma default_ports_at_3: "ports_to_scan None ! 3 = 22"
  by (simp add: ports_to_scan_None COMMON_SERVICES_def nth_append del: upto_rec_numeral)

lemma length_keys: "length COMMON_SERVICES = 79"
  by (simp add: COMMON_SERVICES_def)

lemma default_ports_at_100: "ports_to_scan None ! 100 = 22"
  by (simp add: ports_to_scan_None nth_append length_keys del: upto_rec_numeral)

lemma single_open_scan:
  assumes workers: "0 < max_workers (config s)"
    and only: "\<And>i p tx. scan_port (sockets env (ticks s + i) ip p) = Inr (True, tx) \<longleftrightarrow>
                 p = q \<and> i = i0 \<and> tx = b"
    and at: "i0 < length (ports_to_scan ports)" "ports_to_scan ports ! i0 = q"
  shows "\<exists>t. fst (scan_ports env ip ports s) =
           Inr [(q, \<lparr>service = get_service_name q b, banner = b,
                     timestamp = isoformat (now env t)\<rparr>)]"
proof -
  obtain snap where snap: "fst (scan_ports env ip ports s) = Inr snap"
    using workers by (simp add: scan_ports_fst)
  have keys: "fst ` set snap = {q}"
  proof (intro equalityI subsetI)
    fix p assume "p \<in> fst ` set snap"
    then obtain j tx where "scan_port (sockets env (ticks s + j) ip p) = Inr (True, tx)"
      unfolding scan_ports_keys [OF workers snap] by blast
    then show "p \<in> {q}" by (simp add: only)
  next
    fix p assume "p \<in> {q}"
    then have p: "p = q" by simp
    have "scan_port (sockets env (ticks s + i0) ip q) = Inr (True, b)"
      by (simp add: only)
    with at p show "p \<in> fst ` set snap"
      unfolding scan_ports_keys [OF workers snap] by blast
  qed
  from singleton_alist [OF scan_ports_distinct [OF workers snap] keys]
  obtain info where single: "snap = [(q, info)]" ..
  then have "(q, info) \<in> set snap" by simp
  from scan_ports_entries [OF workers snap this]
  obtain j tx t where "scan_port (sockets env (ticks s + j) ip q) = Inr (True, tx)"
    and info: "info = \<lparr>service = get_service_name q tx, banner = tx,
                      timestamp = isoformat (now env t)\<rparr>"
    by blast
  then have "tx = b"
    by (simp add: only)
  with info single snap show ?thesis
    by blast
qed

lemma lower_ssh_banner: "lower ''SSH-2.0-OpenSSH_8.9'' = ''ssh-2.0-openssh_8.9''"
  by (simp add: lower_def lower_char_def ascii_uppercase_def ascii_lowercase_def)

lemma service_ssh_banner: "get_service_name 22 ''SSH-2.0-OpenSSH_8.9'' = ''ssh''"
  by (simp add: get_service_name_def lower_ssh_banner sublist_Cons_right)

lemma first_probe_scan:
  "fst (scan_ports first_probe_env ''192.168.1.10'' None sample_tool) = Inr snapshot_ssh"
proof -
  have workers: "0 < max_workers (config sample_tool)"
    by (simp add: sample_tool_def sample_config_def)
  have only: "scan_port (sockets first_probe_env (ticks sample_tool + i) ''192.168.1.10'' p)
        = Inr (True, tx) \<longleftrightarrow> p = 22 \<and> i = 3 \<and> tx = ''SSH-2.0-OpenSSH_8.9''" for i p tx
    by (auto simp: first_probe_env_def first_probe_sockets_def sample_tool_def scan_port_result)
  have at: "3 < length (ports_to_scan None)"
    by (simp add: length_default_ports)
  from single_open_scan [of sample_tool first_probe_env "''192.168.1.10''" 22 3
      "''SSH-2.0-OpenSSH_8.9''" None, OF workers only at default_ports_at_3]
  show ?thesis
    by (simp add: first_probe_env_def sample_clock_def service_ssh_banner snapshot_ssh_def)
qed

lemma second_probe_scan:
  "fst (scan_ports second_probe_env ''192.168.1.10'' None sample_tool) = Inr snapshot_ssh"
proof -
  have workers: "0 < max_workers (config sample_tool)"
    by (simp add: sample_tool_def sample_config_def)
  have only: "scan_port (sockets second_probe_env (ticks sample_tool + i) ''192.168.1.10'' p)
        = Inr (True, tx) \<longleftrightarrow> p = 22 \<and> i = 100 \<and> tx = ''SSH-2.0-OpenSSH_8.9''" for i p tx
    by (auto simp: second_probe_env_def second_probe_sockets_def sample_tool_def scan_port_result)
  have at: "100 < length (ports_to_scan None)"
    by (simp add: length_default_ports)
  from single_open_scan [of sample_tool second_probe_env "''192.168.1.10''" 22 100
      "''SSH-2.0-OpenSSH_8.9''" None, OF workers only at default_ports_at_100]
  show ?thesis
    by (simp add: second_probe_env_def sample_clock_def service_ssh_banner snapshot_ssh_def)
qed

lemma filter_enumerate_snd:
  "length (filter (\<lambda>x. Q (snd x)) (enumerate n xs)) = length (filter Q xs)"
  by (induction xs arbitrary: n) auto

lemma sample_open_count:
  "length (filter future_open (future_to_port sample_env t ip (ports_to_scan None))) = 2"
proof -
  have "length (filter future_open (future_to_port sample_env t ip (ports_to_scan None))) =
        length (filter (\<lambda>x. snd x = 80) (enumerate 0 (ports_to_scan None)))"
    by (simp add: future_to_port_def filter_map comp_def case_prod_unfold sample_env_def
        sample_scan_port)
  also have "\<dots> = length (filter (\<lambda>p. p = 80) (ports_to_scan None))"
    by (rule filter_enumerate_snd)
  also have "\<dots> = count_list (ports_to_scan None) 80"
  proof -
    have "(\<lambda>p. p = (80::int)) = ((=) 80)" by auto
    then show ?thesis by (simp only: count_list_eq_length_filter)
  qed
  also have "\<dots> = 2"
    using key_80 by (simp add: count_default_ports)
  finally show ?thesis .
qed

text \<open>
  Claim C3, as stated, fails: the default port list is not deduplicated and the scan
  probes every entry of it.  Port 22 is entry 3 (from the service table) and entry 100
  (from 1..1000) of the list.  On a network where port 22 answers only the probe
  submitted as number 3 the scan finds port 22 open, and so it does on a network where
  port 22 answers only the probe submitted as number 100: both entries are probed.
\<close>

theorem default_ports_probe_22_twice:
  "ports_to_scan None ! 3 = 22 \<and> ports_to_scan None ! 100 = 22
   \<and> fst (scan_ports first_probe_env ''192.168.1.10'' None sample_tool) = Inr snapshot_ssh
   \<and> fst (scan_ports second_probe_env ''192.168.1.10'' None sample_tool) = Inr snapshot_ssh
   \<and> count_list (map (\<lambda>f. fst (snd f))
        (future_to_port sample_env 0 ''192.168.1.10'' (ports_to_scan None))) 22 = 2
   \<and> \<not> distinct (ports_to_scan None)"
proof -
  have "count_list (ports_to_scan None) 22 = 2"
    using key_22 by (simp add: count_default_ports)
  then have "count_list (map (\<lambda>f. fst (snd f))
        (future_to_port sample_env 0 ''192.168.1.10'' (ports_to_scan None))) 22 = 2"
    by (simp only: future_to_port_ports)
  with default_ports_at_3 default_ports_at_100 first_probe_scan second_probe_scan
    not_distinct_default
  show ?thesis by (intro conjI)
qed

text \<open>
  Claim C3, amended.  Without an explicit port list the scan works on the keys of the
  service table followed by 1..1000, a list of 1079 entries, and submits one probe per
  entry of that list.  As a set the ports probed are the union of the table's ports and
  1..1000; the list itself keeps its duplicates, so a port is probed once for each of
  the two parts it belongs to (twice for a table port up to 1000).  The scan makes 1079
  probes and reads the clock once for each probe that found its port open; its
  snapshot has at most one entry per port, and its ports are exactly the ports for
  which the probe of some entry of the list found the port open.
\<close>

theorem default_port_sequence:
  "ports_to_scan None = map fst COMMON_SERVICES @ [1..1000]
   \<and> map (\<lambda>f. fst (snd f)) (future_to_port env t ip (ports_to_scan None)) = ports_to_scan None
   \<and> set (ports_to_scan None) = fst ` set COMMON_SERVICES \<union> {1..1000}
   \<and> count_list (ports_to_scan None) p =
       (if p \<in> fst ` set COMMON_SERVICES then 1 else 0)
       + (if 1 \<le> p \<and> p \<le> 1000 then 1 else 0)
   \<and> (0 < max_workers (config s) \<longrightarrow>
        (\<exists>snap. fst (scan_ports env ip None s) = Inr snap \<and> distinct (map fst snap)
           \<and> fst ` set snap \<subseteq> fst ` set COMMON_SERVICES \<union> {1..1000}
           \<and> fst ` set snap =
               {q. \<exists>i tx. i < length (ports_to_scan None) \<and> ports_to_scan None ! i = q
                     \<and> scan_port (sockets env (ticks s + i) ip q) = Inr (True, tx)}))
   \<and> length (ports_to_scan None) = 1079
   \<and> (0 < max_workers (config s) \<longrightarrow>
        ticks (snd (scan_ports env ip None s)) =
          ticks s + 1079
          + length (filter future_open
              (future_to_port env (ticks s) ip (ports_to_scan None))))"
proof (intro conjI impI)
  show "ports_to_scan None = map fst COMMON_SERVICES @ [1..1000]"
    by (rule ports_to_scan_None)
  show "map (\<lambda>f. fst (snd f)) (future_to_port env t ip (ports_to_scan None)) = ports_to_scan None"
    by (rule future_to_port_ports)
  show ports: "set (ports_to_scan None) = fst ` set COMMON_SERVICES \<union> {1..1000}"
    by (rule set_default_ports)
  show "count_list (ports_to_scan None) p =
       (if p \<in> fst ` set COMMON_SERVICES then 1 else 0)
       + (if 1 \<le> p \<and> p \<le> 1000 then 1 else 0)"
    by (rule count_default_ports)
  show "length (ports_to_scan None) = 1079"
    by (rule length_default_ports)
next
  assume workers: "0 < max_workers (config s)"
  then obtain snap where snap: "fst (scan_ports env ip None s) = Inr snap"
    by (simp add: scan_ports_fst)
  have "fst ` set snap \<subseteq> set (ports_to_scan None)"
  proof
    fix q assume "q \<in> fst ` set snap"
    then obtain j where "j < length (ports_to_scan None)" "ports_to_scan None ! j = q"
      unfolding scan_ports_keys [OF workers snap] by blast
    then show "q \<in> set (ports_to_scan None)"
      using nth_mem by blast
  qed
  then have "fst ` set snap \<subseteq> fst ` set COMMON_SERVICES \<union> {1..1000}"
    by (simp only: set_default_ports)
  with scan_ports_distinct [OF workers snap] snap scan_ports_keys [OF workers snap]
  show "\<exists>snap. fst (scan_ports env ip None s) = Inr snap \<and> distinct (map fst snap)
           \<and> fst ` set snap \<subseteq> fst ` set COMMON_SERVICES \<union> {1..1000}
           \<and> fst ` set snap =
               {q. \<exists>i tx. i < length (ports_to_scan None) \<and> ports_to_scan None ! i = q
                     \<and> scan_port (sockets env (ticks s + i) ip q) = Inr (True, tx)}"
    by (intro exI [of _ snap] conjI)
next
  assume workers: "0 < max_workers (config s)"
  show "ticks (snd (scan_ports env ip None s)) =
          ticks s + 1079
          + length (filter future_open
              (future_to_port env (ticks s) ip (ports_to_scan None)))"
    using scan_ports_ticks [OF workers, of env ip None]
    by (simp only: length_default_ports)
qed

theorem default_port_sequence_witness:
  "count_list (ports_to_scan None) 22 = 2
   \<and> count_list (ports_to_scan None) 3306 = 1
   \<and> count_list (ports_to_scan None) 999 = 1
   \<and> 0 < max_workers (config sample_tool)
   \<and> fst (scan_ports sample_env ''192.168.1.10'' None sample_tool) = Inr snapshot_d
   \<and> distinct (map fst snapshot_d)
   \<and> ticks (snd (scan_ports sample_env ''192.168.1.10'' None sample_tool)) = 1081"
proof -
  have workers: "0 < max_workers (config sample_tool)"
    by (simp add: sample_tool_def sample_config_def)
  note scan = sample_default_scan [OF workers, of "''192.168.1.10''"]
  have k22: "22 \<in> fst ` set COMMON_SERVICES" and k3306: "3306 \<in> fst ` set COMMON_SERVICES"
    and k999: "999 \<notin> fst ` set COMMON_SERVICES"
    by (simp_all add: COMMON_SERVICES_def)
  note at = default_port_sequence [of sample_env 0 "''192.168.1.10''" _ sample_tool]
  have "count_list (ports_to_scan None) 22 =
      (if 22 \<in> fst ` set COMMON_SERVICES then 1 else 0)
      + (if (1::int) \<le> 22 \<and> (22::int) \<le> 1000 then 1 else 0)"
    by (rule at [of 22, THEN conjunct2, THEN conjunct2, THEN conjunct2, THEN conjunct1])
  with k22 have c22: "count_list (ports_to_scan None) 22 = 2" by simp
  have "count_list (ports_to_scan None) 3306 =
      (if 3306 \<in> fst ` set COMMON_SERVICES then 1 else 0)
      + (if (1::int) \<le> 3306 \<and> (3306::int) \<le> 1000 then 1 else 0)"
    by (rule at [of 3306, THEN conjunct2, THEN conjunct2, THEN conjunct2, THEN conjunct1])
  with k3306 have c3306: "count_list (ports_to_scan None) 3306 = 1" by simp
  have "count_list (ports_to_scan None) 999 =
      (if 999 \<in> fst ` set COMMON_SERVICES then 1 else 0)
      + (if (1::int) \<le> 999 \<and> (999::int) \<le> 1000 then 1 else 0)"
    by (rule at [of 999, THEN conjunct2, THEN conjunct2, THEN conjunct2, THEN conjunct1])
  with k999 have c999: "count_list (ports_to_scan None) 999 = 1" by simp
  from at [of 22, THEN conjunct2, THEN conjunct2, THEN conjunct2, THEN conjunct2,
        THEN conjunct1, rule_format, OF workers]
  obtain snap where "fst (scan_ports sample_env ''192.168.1.10'' None sample_tool) = Inr snap"
    and "distinct (map fst snap)"
    by (elim exE conjE)
  with scan have d: "distinct (map fst snapshot_d)" by simp
  have "ticks (snd (scan_ports sample_env ''192.168.1.10'' None sample_tool)) =
      ticks sample_tool + 1079
      + length (filter future_open
          (future_to_port sample_env (ticks sample_tool) ''192.168.1.10'' (ports_to_scan None)))"
    by (rule at [of 22, THEN conjunct2, THEN conjunct2, THEN conjunct2, THEN conjunct2,
        THEN conjunct2, THEN conjunct2, rule_format, OF workers])
  then have t: "ticks (snd (scan_ports sample_env ''192.168.1.10'' None sample_tool)) = 1081"
    by (simp add: sample_open_count) (simp add: sample_tool_def)
  from c22 c3306 c999 workers scan d t show ?thesis
    by (intro conjI)
qed

section \<open>Properties of the monitor\<close>

lemma send_telegram_message_fields [simp]:
  "monitored_ips (snd (send_telegram_message env message s)) = monitored_ips s"
  "config (snd (send_telegram_message env message s)) = config s"
  "scanning_active (snd (send_telegram_message env message s)) = scanning_active s"
  by (simp_all add: send_telegram_message_def Let_def split: outcome.splits)

lemma notify_changes_fields [simp]:
  "monitored_ips (notify_changes env cs s) = monitored_ips s"
  "config (notify_changes env cs s) = config s"
  "scanning_active (notify_changes env cs s) = scanning_active s"
  by (induction cs arbitrary: s; simp add: Let_def)+

lemma scan_ports_collapse:
  "fst (scan_ports env ip ports s) = Inr snap \<Longrightarrow>
   scan_ports env ip ports s = (Inr snap, snd (scan_ports env ip ports s))"
  by (metis prod.collapse)

lemma scan_ports_fields [simp]:
  "monitored_ips (snd (scan_ports env ip ports s)) = monitored_ips s"
  "config (snd (scan_ports env ip ports s)) = config s"
  "scanning_active (snd (scan_ports env ip ports s)) = scanning_active s"
  using scan_ports_state [of env ip ports s] by simp_all

lemma monitor_target_entry:
  assumes scan: "fst (scan_ports env ip None (log env (''Scanning '' @ ip) ''INFO'' s))
                  = Inr current_scan"
    and tg: "map_of (monitored_ips s) ip = Some tg"
  shows "map_of (monitored_ips (monitor_target env ip s)) ip =
     Some (let s2 = snd (scan_ports env ip None (log env (''Scanning '' @ ip) ''INFO'' s));
               found = detect_changes (\<lambda>k. now env (ticks s2 + k)) (last_scan tg)
                         current_scan ip
           in if found \<noteq> [] then tg\<lparr>changes := changes tg @ found, last_scan := current_scan\<rparr>
              else tg)"
  unfolding monitor_target_def Let_def
  by (subst scan_ports_collapse [OF scan]) (simp add: tg AList.map_of_map_entry)

lemma monitor_target_other:
  assumes "ip' \<noteq> ip"
  shows "map_of (monitored_ips (monitor_target env ip' s)) ip = map_of (monitored_ips s) ip"
proof -
  define s1 where "s1 = log env (''Scanning '' @ ip') ''INFO'' s"
  obtain r s2 where scan: "scan_ports env ip' None s1 = (r, s2)"
    by (cases "scan_ports env ip' None s1")
  have "monitored_ips s2 = monitored_ips s1"
    using scan_ports_state [of env ip' None s1] unfolding scan by simp
  then have m2: "monitored_ips s2 = monitored_ips s"
    by (simp add: s1_def)
  have "monitor_target env ip' s =
    (case (r, s2) of
       (Inl e, s2) \<Rightarrow> log env (''Error monitoring '' @ ip' @ '': '' @ str_exn e) ''ERROR'' s2
     | (Inr current_scan, s2) \<Rightarrow>
         (case map_of (monitored_ips s2) ip' of
            None \<Rightarrow>
              log env (''Error monitoring '' @ ip' @ '': '' @ str_exn (KeyError ip')) ''ERROR'' s2
          | Some tg \<Rightarrow>
              (let previous_scan = last_scan tg;
                   found = detect_changes (\<lambda>k. now env (ticks s2 + k))
                             previous_scan current_scan ip';
                   s3 = s2\<lparr>ticks := ticks s2 + length found\<rparr>
               in if found \<noteq> [] then
                    notify_changes env found
                      (s3\<lparr>monitored_ips :=
                            AList.map_entry ip'
                              (\<lambda>tg. tg\<lparr>changes := changes tg @ found,
                                        last_scan := current_scan\<rparr>)
                              (monitored_ips s3)\<rparr>)
                  else log env (''No changes detected for '' @ ip') ''INFO'' s3)))"
    unfolding monitor_target_def Let_def s1_def [symmetric] scan ..
  then show ?thesis
    using assms
    by (simp add: m2 Let_def AList.map_of_map_entry split: sum.splits option.splits)
qed

lemma foldl_monitor_other:
  "ip \<notin> set ips \<Longrightarrow>
   map_of (monitored_ips (foldl (\<lambda>s' ip'. monitor_target env ip' s') s ips)) ip =
   map_of (monitored_ips s) ip"
  by (induction ips arbitrary: s) (auto simp: monitor_target_other)

lemma monitoring_cycle_prefix:
  "monitoring_cycle env s = cycle_prefix env s (map fst (monitored_ips s))"
  by (simp add: monitoring_cycle_def cycle_prefix_def)

lemma cycle_prefix_append:
  "cycle_prefix env s (before @ ip # after) =
     cycle_prefix env (monitor_target env ip (cycle_prefix env s before)) after"
  by (simp add: cycle_prefix_def)

lemma cycle_prefix_other:
  "ip \<notin> set ips \<Longrightarrow>
   map_of (monitored_ips (cycle_prefix env s ips)) ip = map_of (monitored_ips s) ip"
  unfolding cycle_prefix_def by (rule foldl_monitor_other)

lemma monitoring_cycle_entry:
  assumes d: "distinct (map fst (monitored_ips s))"
    and split: "map fst (monitored_ips s) = before @ ip # after"
    and tg: "map_of (monitored_ips s) ip = Some tg"
    and scan: "fst (target_scan env ip (cycle_prefix env s before)) = Inr current_scan"
  shows "map_of (monitored_ips (monitoring_cycle env s)) ip =
     Some (if target_diff env ip (cycle_prefix env s before) tg current_scan \<noteq> [] then
             tg\<lparr>changes := changes tg
                    @ target_diff env ip (cycle_prefix env s before) tg current_scan,
                last_scan := current_scan\<rparr>
           else tg)"
proof -
  from d split have nb: "ip \<notin> set before" and na: "ip \<notin> set after"
    by auto
  let ?s = "cycle_prefix env s before"
  have here: "map_of (monitored_ips ?s) ip = Some tg"
    using nb tg by (simp add: cycle_prefix_other)
  have "map_of (monitored_ips (monitoring_cycle env s)) ip =
        map_of (monitored_ips (monitor_target env ip ?s)) ip"
    unfolding monitoring_cycle_prefix split cycle_prefix_append
    using na by (rule cycle_prefix_other)
  also have "\<dots> = Some (if target_diff env ip ?s tg current_scan \<noteq> [] then
             tg\<lparr>changes := changes tg @ target_diff env ip ?s tg current_scan,
                last_scan := current_scan\<rparr>
           else tg)"
    using monitor_target_entry [OF scan [unfolded target_scan_def] here]
    by (simp only: target_diff_def target_scan_def Let_def)
  finally show ?thesis .
qed

text \<open>
  Claim C1, amended.  In a monitoring pass over a dictionary of monitored addresses,
  for every monitored address whose scan returns a snapshot: when the diff of the last
  snapshot against the new one holds at least one change, the last snapshot of the
  address is the new snapshot after the pass; when the diff is empty, the last
  snapshot is left as it was.
\<close>

theorem monitoring_cycle_last_scan:
  assumes "distinct (map fst (monitored_ips s))"
    and "map fst (monitored_ips s) = before @ ip # after"
    and "map_of (monitored_ips s) ip = Some tg"
    and "fst (target_scan env ip (cycle_prefix env s before)) = Inr current_scan"
  shows "map_option last_scan (map_of (monitored_ips (monitoring_cycle env s)) ip) =
     Some (if target_diff env ip (cycle_prefix env s before) tg current_scan = []
           then last_scan tg else current_scan)"
  by (simp add: monitoring_cycle_entry [OF assms])

lemma sample_target_scan:
  assumes "0 < max_workers (config s)"
  shows "fst (target_scan sample_env ip s) = Inr snapshot_d"
  unfolding target_scan_def
  by (rule sample_default_scan) (simp add: assms)

lemma sample_diff_c_d: "detect_changes clk snapshot_c snapshot_d ip = []"
  by (simp add: detect_changes_def snapshot_c_def snapshot_d_def)

lemma sample_diff_a_d: "detect_changes clk snapshot_a snapshot_d ip \<noteq> []"
  by (simp add: detect_changes_def snapshot_a_def snapshot_d_def)

text \<open>
  Claim C1, as stated, fails.  The address 192.168.1.10 is monitored with a last
  snapshot that holds port 80 as \<open>http\<close> with an older banner and timestamp.  The pass
  scans it, finds port 80 as \<open>http\<close> with a new banner, detects no change, and leaves
  the old snapshot in place.
\<close>

theorem monitoring_cycle_keeps_old_snapshot:
  "fst (target_scan sample_env ''192.168.1.10'' sample_tool) = Inr snapshot_d
   \<and> target_diff sample_env ''192.168.1.10'' sample_tool sample_target snapshot_d = []
   \<and> map_option last_scan
        (map_of (monitored_ips (monitoring_cycle sample_env sample_tool)) ''192.168.1.10'')
       = Some snapshot_c
   \<and> snapshot_c \<noteq> snapshot_d"
proof -
  have workers: "0 < max_workers (config sample_tool)"
    by (simp add: sample_tool_def sample_config_def)
  have scan: "fst (target_scan sample_env ''192.168.1.10'' (cycle_prefix sample_env sample_tool []))
      = Inr snapshot_d"
    using sample_target_scan [OF workers] by (simp add: cycle_prefix_def)
  have diff: "target_diff sample_env ''192.168.1.10'' sample_tool sample_target snapshot_d = []"
    by (simp add: target_diff_def sample_target_def sample_diff_c_d)
  have d: "distinct (map fst (monitored_ips sample_tool))"
    and split: "map fst (monitored_ips sample_tool) = [] @ ''192.168.1.10'' # []"
    and tg: "map_of (monitored_ips sample_tool) ''192.168.1.10'' = Some sample_target"
    by (simp_all add: sample_tool_def)
  have "map_of (monitored_ips (monitoring_cycle sample_env sample_tool)) ''192.168.1.10''
      = Some sample_target"
    using monitoring_cycle_entry [OF d split tg scan] diff
    by (simp add: cycle_prefix_def)
  then have "map_option last_scan
        (map_of (monitored_ips (monitoring_cycle sample_env sample_tool)) ''192.168.1.10'')
       = Some snapshot_c"
    by (simp add: sample_target_def)
  moreover have "snapshot_c \<noteq> snapshot_d"
    by (simp add: snapshot_c_def snapshot_d_def)
  moreover have "fst (target_scan sample_env ''192.168.1.10'' sample_tool) = Inr snapshot_d"
    by (rule sample_target_scan [OF workers])
  ultimately show ?thesis using diff by blast
qed

theorem monitoring_cycle_last_scan_witness:
  "distinct (map fst (monitored_ips sample_tool))
   \<and> target_diff sample_env ''192.168.1.10'' sample_tool sample_target snapshot_d = []
   \<and> map_option last_scan
        (map_of (monitored_ips (monitoring_cycle sample_env sample_tool)) ''192.168.1.10'')
       = Some snapshot_c
   \<and> distinct (map fst (monitored_ips sample_tool_a))
   \<and> target_diff sample_env ''192.168.1.10'' sample_tool_a sample_target_a snapshot_d \<noteq> []
   \<and> map_option last_scan
        (map_of (monitored_ips (monitoring_cycle sample_env sample_tool_a)) ''192.168.1.10'')
       = Some snapshot_d"
proof -
  have workers: "0 < max_workers (config sample_tool)"
    and workers_a: "0 < max_workers (config sample_tool_a)"
    by (simp_all add: sample_tool_def sample_tool_a_def sample_config_def)
  have scan: "fst (target_scan sample_env ''192.168.1.10'' (cycle_prefix sample_env sample_tool []))
      = Inr snapshot_d"
    using sample_target_scan [OF workers] by (simp add: cycle_prefix_def)
  have scan_a:
    "fst (target_scan sample_env ''192.168.1.10'' (cycle_prefix sample_env sample_tool_a []))
      = Inr snapshot_d"
    using sample_target_scan [OF workers_a] by (simp add: cycle_prefix_def)
  have diff: "target_diff sample_env ''192.168.1.10'' sample_tool sample_target snapshot_d = []"
    by (simp add: target_diff_def sample_target_def sample_diff_c_d)
  have diff_a:
    "target_diff sample_env ''192.168.1.10'' sample_tool_a sample_target_a snapshot_d \<noteq> []"
    by (simp add: target_diff_def sample_target_a_def sample_diff_a_d)
  have d: "distinct (map fst (monitored_ips sample_tool))"
    and split: "map fst (monitored_ips sample_tool) = [] @ ''192.168.1.10'' # []"
    and tg: "map_of (monitored_ips sample_tool) ''192.168.1.10'' = Some sample_target"
    by (simp_all add: sample_tool_def)
  have d_a: "distinct (map fst (monitored_ips sample_tool_a))"
    and split_a: "map fst (monitored_ips sample_tool_a) = [] @ ''192.168.1.10'' # []"
    and tg_a: "map_of (monitored_ips sample_tool_a) ''192.168.1.10'' = Some sample_target_a"
    by (simp_all add: sample_tool_a_def)
  have "map_option last_scan
        (map_of (monitored_ips (monitoring_cycle sample_env sample_tool)) ''192.168.1.10'')
       = Some snapshot_c"
    using monitoring_cycle_last_scan [OF d split tg scan] diff
    by (simp add: cycle_prefix_def sample_target_def)
  moreover have "map_option last_scan
        (map_of (monitored_ips (monitoring_cycle sample_env sample_tool_a)) ''192.168.1.10'')
       = Some snapshot_d"
    using monitoring_cycle_last_scan [OF d_a split_a tg_a scan_a] diff_a
    by (simp add: cycle_prefix_def)
  ultimately show ?thesis
    using d d_a diff diff_a by blast
qed

text \<open>
  Claim C6, as stated, fails on its first part: \<^verbatim>\<open>start_monitoring\<close> on an address that is
  already monitored does not fail.  It returns as a call that succeeds does; no error
  value or exception reaches the caller.
\<close>

theorem start_monitoring_returns_normally:
  "map_of (monitored_ips sample_tool) ''192.168.1.10'' = Some sample_target
   \<and> fst (start_monitoring sample_env ''192.168.1.10'' sample_tool) = Inr ()"
  by (simp add: start_monitoring_def sample_tool_def)

text \<open>
  Claim C6, amended.  \<^verbatim>\<open>start_monitoring\<close> on an address that is already monitored
  returns without raising, after logging the line \<open>Already monitoring\<close> with the
  address at level INFO, and does nothing else: the dictionary of monitored addresses
  (so the record of the address with its last snapshot, change log and start time, and
  the set of monitored addresses), the configuration and the service flag are the same
  after the call as before, and the history has the one new line.
\<close>

theorem start_monitoring_already_monitored:
  assumes "map_of (monitored_ips s) ip = Some tg"
  shows "start_monitoring env ip s = (Inr (), log env (''Already monitoring '' @ ip) ''INFO'' s)
   \<and> monitored_ips (snd (start_monitoring env ip s)) = monitored_ips s
   \<and> map_of (monitored_ips (snd (start_monitoring env ip s))) ip = Some tg
   \<and> config (snd (start_monitoring env ip s)) = config s
   \<and> scanning_active (snd (start_monitoring env ip s)) = scanning_active s
   \<and> history (snd (start_monitoring env ip s)) =
       (let h = history s
                @ [''['' @ strftime (now env (ticks s)) @ ''] [INFO] Already monitoring '' @ ip]
        in if length h > 1000 then tl h else h)"
  using assms by (simp add: start_monitoring_def log_def Let_def)

theorem start_monitoring_already_monitored_witness:
  "map_of (monitored_ips sample_tool) ''192.168.1.10'' = Some sample_target
   \<and> monitored_ips (snd (start_monitoring sample_env ''192.168.1.10'' sample_tool))
       = [(''192.168.1.10'', sample_target)]
   \<and> config (snd (start_monitoring sample_env ''192.168.1.10'' sample_tool)) = sample_config
   \<and> history (snd (start_monitoring sample_env ''192.168.1.10'' sample_tool))
       = [''[2025-03-01 12:00:00] [INFO] Already monitoring 192.168.1.10'']"
proof -
  have tg: "map_of (monitored_ips sample_tool) ''192.168.1.10'' = Some sample_target"
    by (simp add: sample_tool_def)
  note at = start_monitoring_already_monitored [OF tg, of sample_env]
  have "monitored_ips (snd (start_monitoring sample_env ''192.168.1.10'' sample_tool))
       = monitored_ips sample_tool"
    using at by blast
  then have "monitored_ips (snd (start_monitoring sample_env ''192.168.1.10'' sample_tool))
       = [(''192.168.1.10'', sample_target)]"
    by (simp add: sample_tool_def)
  moreover have "config (snd (start_monitoring sample_env ''192.168.1.10'' sample_tool))
      = config sample_tool"
    using at by blast
  then have "config (snd (start_monitoring sample_env ''192.168.1.10'' sample_tool))
      = sample_config"
    by (simp add: sample_tool_def)
  moreover have "history (snd (start_monitoring sample_env ''192.168.1.10'' sample_tool)) =
       (let h = history sample_tool
                @ [''['' @ strftime (now sample_env (ticks sample_tool))
                   @ ''] [INFO] Already monitoring '' @ ''192.168.1.10'']
        in if length h > 1000 then tl h else h)"
    using at by blast
  then have "history (snd (start_monitoring sample_env ''192.168.1.10'' sample_tool))
       = [''[2025-03-01 12:00:00] [INFO] Already monitoring 192.168.1.10'']"
    by (simp add: sample_tool_def sample_env_def sample_clock_def Let_def)
  ultimately show ?thesis using tg by blast
qed

end
